theory Spec2Isabelle
  imports Complex_Main "HOL-Library.Sublist"
begin

section \<open>Python values used by the parser\<close>

subsection \<open>Strings\<close>

text \<open>
  A Python \<open>str\<close> is a sequence of Unicode code points; the parser's literals are Hebrew,
  so a string is modelled as the list of its code points. ASCII text is written with
  \<open>asc\<close>; the Hebrew letters get names.
\<close>

type_synonym pystr = "nat list"

definition asc :: "string \<Rightarrow> pystr" where
  "asc s = map of_char s"

abbreviation (input) alef :: nat where "alef \<equiv> 1488"
abbreviation (input) bet :: nat where "bet \<equiv> 1489"
abbreviation (input) gimel :: nat where "gimel \<equiv> 1490"
abbreviation (input) dalet :: nat where "dalet \<equiv> 1491"
abbreviation (input) he :: nat where "he \<equiv> 1492"
abbreviation (input) vav :: nat where "vav \<equiv> 1493"
abbreviation (input) zayin :: nat where "zayin \<equiv> 1494"
abbreviation (input) het :: nat where "het \<equiv> 1495"
abbreviation (input) tet :: nat where "tet \<equiv> 1496"
abbreviation (input) yod :: nat where "yod \<equiv> 1497"
abbreviation (input) final_kaf :: nat where "final_kaf \<equiv> 1498"
abbreviation (input) kaf :: nat where "kaf \<equiv> 1499"
abbreviation (input) lamed :: nat where "lamed \<equiv> 1500"
abbreviation (input) final_mem :: nat where "final_mem \<equiv> 1501"
abbreviation (input) mem :: nat where "mem \<equiv> 1502"
abbreviation (input) nun :: nat where "nun \<equiv> 1504"
abbreviation (input) samekh :: nat where "samekh \<equiv> 1505"
abbreviation (input) ayin :: nat where "ayin \<equiv> 1506"
abbreviation (input) final_pe :: nat where "final_pe \<equiv> 1507"
abbreviation (input) pe :: nat where "pe \<equiv> 1508"
abbreviation (input) final_tsadi :: nat where "final_tsadi \<equiv> 1509"
abbreviation (input) qof :: nat where "qof \<equiv> 1511"
abbreviation (input) resh :: nat where "resh \<equiv> 1512"
abbreviation (input) shin :: nat where "shin \<equiv> 1513"
abbreviation (input) tav :: nat where "tav \<equiv> 1514"
abbreviation (input) sp :: nat where "sp \<equiv> 32"
abbreviation (input) dquote :: nat where "dquote \<equiv> 34"
abbreviation (input) squote :: nat where "squote \<equiv> 39"
abbreviation (input) lparen :: nat where "lparen \<equiv> 40"
abbreviation (input) rparen :: nat where "rparen \<equiv> 41"
abbreviation (input) plus_sign :: nat where "plus_sign \<equiv> 43"
abbreviation (input) minus_sign :: nat where "minus_sign \<equiv> 45"
abbreviation (input) dot :: nat where "dot \<equiv> 46"
abbreviation (input) digit_one :: nat where "digit_one \<equiv> 49"
abbreviation (input) underscore :: nat where "underscore \<equiv> 95"
abbreviation (input) newline :: nat where "newline \<equiv> 10"

text \<open>\<open>sub in s\<close> on strings: \<open>sub\<close> occurs in \<open>s\<close> as a contiguous block.\<close>

fun contains :: "pystr \<Rightarrow> pystr \<Rightarrow> bool" where
  "contains sub [] = (sub = [])"
| "contains sub (c # s) = (prefix sub (c # s) \<or> contains sub s)"

text \<open>
  \<open>s.replace(old, new)\<close>: every occurrence of \<open>old\<close>, found left to right without
  overlap, is replaced. (The parser only calls it with a non-empty \<open>old\<close>; with an empty
  one the string is returned as it is, which Python does not do.)
\<close>

function replace :: "pystr \<Rightarrow> pystr \<Rightarrow> pystr \<Rightarrow> pystr" where
  "replace old new [] = []"
| "replace old new (c # s) =
     (if old \<noteq> [] \<and> prefix old (c # s)
      then new @ replace old new (drop (length old) (c # s))
      else c # replace old new s)"
  by pat_completeness auto
termination
  by (relation "measure (\<lambda>(old, new, s). length s)") auto

text \<open>
  The characters for which \<open>str.isspace\<close> holds; \<open>str.strip()\<close> removes them from both
  ends and the regular expression class \<open>\s\<close> matches them.
\<close>

definition WHITESPACE :: "nat list" where
  "WHITESPACE = [9, 10, 11, 12, 13, 28, 29, 30, 31, 32, 133, 160, 5760, 8192, 8193, 8194,
     8195, 8196, 8197, 8198, 8199, 8200, 8201, 8202, 8232, 8233, 8239, 8287, 12288]"

definition is_space :: "nat \<Rightarrow> bool" where
  "is_space c = (c \<in> set WHITESPACE)"

definition strip :: "pystr \<Rightarrow> pystr" where
  "strip s = rev (dropWhile is_space (rev (dropWhile is_space s)))"

text \<open>
  The decimal digits (Unicode category Nd, which \<open>\d\<close>, \<open>int\<close> and \<open>float\<close> accept):
  blocks of ten consecutive code points, listed by the code point of their zero
  (Unicode 14).
\<close>

definition DIGIT_ZEROS :: "nat list" where
  "DIGIT_ZEROS = [48, 1632, 1776, 1984, 2406, 2534, 2662, 2790, 2918, 3046, 3174, 3302, 3430,
     3558, 3664, 3792, 3872, 4160, 4240, 6112, 6160, 6470, 6608, 6784, 6800, 6992, 7088, 7232,
     7248, 42528, 43216, 43264, 43472, 43504, 43600, 44016, 65296, 66720, 68912, 69734, 69872,
     69942, 70096, 70384, 70736, 70864, 71248, 71360, 71472, 71904, 72016, 72784, 73040, 73120,
     92768, 92864, 93008, 120782, 120792, 120802, 120812, 120822, 123200, 123632, 125264,
     130032]"

definition digit_zero :: "nat \<Rightarrow> nat option" where
  "digit_zero c = find (\<lambda>z. z \<le> c \<and> c < z + 10) DIGIT_ZEROS"

definition is_digit :: "nat \<Rightarrow> bool" where
  "is_digit c = (digit_zero c \<noteq> None)"

definition digit_value :: "nat \<Rightarrow> nat" where
  "digit_value c = (case digit_zero c of Some z \<Rightarrow> c - z | None \<Rightarrow> 0)"

subsection \<open>Regular expressions\<close>

text \<open>
  The fragment of Python's \<open>re\<close> syntax that the parser's six patterns use. Repetition is
  only ever applied to a character class in them. \<open>rmatch\<close> lists the ways a pattern
  can match at the start of the text in the order in which the backtracking matcher tries
  them (greedy repetition first, left alternative first), each with the text left over and
  the groups captured; the match \<open>re\<close> reports is the first.
\<close>

datatype cls = Digit | Space | AnyChar

datatype regex =
    Lit pystr
  | Cls cls
  | Star cls
  | Plus cls
  | Opt regex
  | Seq regex regex
  | Alt regex regex
  | Group nat regex

type_synonym captures = "(nat \<times> pystr) list"

fun in_cls :: "cls \<Rightarrow> nat \<Rightarrow> bool" where
  "in_cls Digit c = is_digit c"
| "in_cls Space c = is_space c"
| "in_cls AnyChar c = (c \<noteq> newline)"

primrec rmatch :: "regex \<Rightarrow> pystr \<times> captures \<Rightarrow> (pystr \<times> captures) list" where
  "rmatch (Lit l) = (\<lambda>(s, g). if prefix l s then [(drop (length l) s, g)] else [])"
| "rmatch (Cls c) = (\<lambda>(s, g). case s of [] \<Rightarrow> [] | x # xs \<Rightarrow> if in_cls c x then [(xs, g)] else [])"
| "rmatch (Star c) = (\<lambda>(s, g).
     map (\<lambda>k. (drop k s, g)) (rev [0 ..< Suc (length (takeWhile (in_cls c) s))]))"
| "rmatch (Plus c) = (\<lambda>(s, g).
     map (\<lambda>k. (drop k s, g)) (rev [1 ..< Suc (length (takeWhile (in_cls c) s))]))"
| "rmatch (Opt r) = (\<lambda>x. rmatch r x @ [x])"
| "rmatch (Seq a b) = (\<lambda>x. concat (map (rmatch b) (rmatch a x)))"
| "rmatch (Alt a b) = (\<lambda>x. rmatch a x @ rmatch b x)"
| "rmatch (Group n r) = (\<lambda>(s, g).
     map (\<lambda>(s', g'). (s', (n, take (length s - length s') s) # g')) (rmatch r (s, g)))"

text \<open>\<open>pattern.match(s)\<close>: the groups of the first match at the start of \<open>s\<close>.\<close>

definition re_match :: "regex \<Rightarrow> pystr \<Rightarrow> captures option" where
  "re_match p s = (case rmatch p (s, []) of [] \<Rightarrow> None | (rest, g) # _ \<Rightarrow> Some g)"

text \<open>\<open>pattern.search(s)\<close>: the match at the leftmost position that has one.\<close>

fun re_search :: "regex \<Rightarrow> pystr \<Rightarrow> captures option" where
  "re_search p [] = re_match p []"
| "re_search p (c # s) =
     (case re_match p (c # s) of Some g \<Rightarrow> Some g | None \<Rightarrow> re_search p s)"

text \<open>\<open>match.group(n)\<close> (or \<open>match[n]\<close>): \<open>None\<close> for a group that took no part.\<close>

definition group :: "captures \<Rightarrow> nat \<Rightarrow> pystr option" where
  "group g n = map_of g n"

subsection \<open>Numbers\<close>

text \<open>
  A Python \<open>int\<close> is an \<open>int\<close>. A \<open>float\<close> is modelled by the number it denotes, or one
  of the three special values: rounding to 53 bits, overflow to infinity and the sign of
  zero are not modelled.
\<close>

datatype pyfloat = Fin rat | PosInf | NegInf | NaN

fun fadd :: "pyfloat \<Rightarrow> pyfloat \<Rightarrow> pyfloat" where
  "fadd NaN y = NaN"
| "fadd x NaN = NaN"
| "fadd (Fin a) (Fin b) = Fin (a + b)"
| "fadd PosInf NegInf = NaN"
| "fadd NegInf PosInf = NaN"
| "fadd PosInf y = PosInf"
| "fadd x PosInf = PosInf"
| "fadd NegInf y = NegInf"
| "fadd x NegInf = NegInf"

text \<open>
  \<open>digitpart ::= digit (["_"] digit)*\<close> of the grammar of \<open>int\<close> and \<open>float\<close>: the
  value read so far and the number of digits, \<open>prev\<close> telling whether the last character
  was a digit.
\<close>

fun digitpart :: "pystr \<Rightarrow> bool \<Rightarrow> nat \<times> nat \<Rightarrow> (nat \<times> nat) option" where
  "digitpart [] prev acc = (if prev then Some acc else None)"
| "digitpart (c # cs) prev (v, n) =
     (if is_digit c then digitpart cs True (10 * v + digit_value c, Suc n)
      else if c = underscore \<and> prev then digitpart cs False (v, n)
      else None)"

definition unsigned :: "pystr \<Rightarrow> (nat \<times> nat) option" where
  "unsigned s = digitpart s False (0, 0)"

definition signed :: "pystr \<Rightarrow> int option" where
  "signed s =
     (case s of
        [] \<Rightarrow> None
      | c # cs \<Rightarrow>
          if c = minus_sign then map_option (\<lambda>(v, n). - int v) (unsigned cs)
          else if c = plus_sign then map_option (\<lambda>(v, n). int v) (unsigned cs)
          else map_option (\<lambda>(v, n). int v) (unsigned (c # cs)))"

text \<open>
  The white space that \<open>int\<close> and \<open>float\<close> skip at both ends of a string: the white
  space above 127 is first replaced by a blank, and then only the white space of C is
  skipped, so the four separators U+001C to U+001F, which \<open>str.strip\<close> removes, are not.
\<close>

definition is_number_space :: "nat \<Rightarrow> bool" where
  "is_number_space c = (is_space c \<and> \<not> (28 \<le> c \<and> c \<le> 31))"

definition number_strip :: "pystr \<Rightarrow> pystr" where
  "number_strip s = rev (dropWhile is_number_space (rev (dropWhile is_number_space s)))"

text \<open>
  \<open>int(s)\<close> for a string: \<open>None\<close> stands for the ValueError. The limit on the number of
  digits (4300 by default, from Python 3.11 on) is not modelled.
\<close>

definition int_of_str :: "pystr \<Rightarrow> int option" where
  "int_of_str s = signed (number_strip s)"

definition lower :: "nat \<Rightarrow> nat" where
  "lower c = (if 65 \<le> c \<and> c \<le> 90 then c + 32 else c)"

text \<open>Cut a string at the first character that satisfies \<open>P\<close>, which is dropped.\<close>

definition split_at :: "(nat \<Rightarrow> bool) \<Rightarrow> pystr \<Rightarrow> pystr \<times> pystr option" where
  "split_at P s =
     (case dropWhile (\<lambda>c. \<not> P c) s of
        [] \<Rightarrow> (s, None)
      | c # r \<Rightarrow> (takeWhile (\<lambda>c. \<not> P c) s, Some r))"

text \<open>
  \<open>number ::= [digitpart] "." digitpart | digitpart ["."]\<close>: the digits read as one
  natural number, and how many of them stand after the point.
\<close>

definition mantissa :: "pystr \<Rightarrow> (nat \<times> nat) option" where
  "mantissa m =
     (case split_at (\<lambda>c. c = dot) m of
        (i, None) \<Rightarrow> map_option (\<lambda>(v, n). (v, 0)) (unsigned i)
      | (i, Some f) \<Rightarrow>
          if f = [] then map_option (\<lambda>(v, n). (v, 0)) (unsigned i)
          else (case unsigned f of
                  None \<Rightarrow> None
                | Some (fv, fn) \<Rightarrow>
                    if i = [] then Some (fv, fn)
                    else (case unsigned i of
                            None \<Rightarrow> None
                          | Some (iv, n) \<Rightarrow> Some (iv * 10 ^ fn + fv, fn))))"

definition exponent :: "pystr option \<Rightarrow> int option" where
  "exponent x = (case x of None \<Rightarrow> Some 0 | Some e \<Rightarrow> signed e)"

definition scale10 :: "rat \<Rightarrow> int \<Rightarrow> rat" where
  "scale10 x k = (if 0 \<le> k then x * 10 ^ nat k else x / 10 ^ nat (- k))"

text \<open>
  \<open>float(s)\<close> for a string, \<open>None\<close> standing for the ValueError: surrounding white space,
  a sign, then \<open>inf\<close>, \<open>infinity\<close> or \<open>nan\<close> in any case, or a decimal number with an
  optional exponent.
\<close>

definition float_of_str :: "pystr \<Rightarrow> pyfloat option" where
  "float_of_str s =
     (let t = number_strip s;
          neg = (t \<noteq> [] \<and> hd t = minus_sign);
          body = (if t \<noteq> [] \<and> (hd t = minus_sign \<or> hd t = plus_sign) then tl t else t)
      in if map lower body = asc ''inf'' \<or> map lower body = asc ''infinity''
         then Some (if neg then NegInf else PosInf)
         else if map lower body = asc ''nan'' then Some NaN
         else (case split_at (\<lambda>c. c = 101 \<or> c = 69) body of
                 (m, x) \<Rightarrow>
                   (case mantissa m of
                      None \<Rightarrow> None
                    | Some (v, fn) \<Rightarrow>
                        (case exponent x of
                           None \<Rightarrow> None
                         | Some e \<Rightarrow>
                             Some (Fin (scale10 (if neg then - of_nat v else of_nat v)
                                          (e - int fn)))))))"

text \<open>\<open>str\<close> of a number.\<close>

function str_nat :: "nat \<Rightarrow> pystr" where
  "str_nat n = (if n < 10 then [48 + n] else str_nat (n div 10) @ [48 + n mod 10])"
  by pat_completeness auto
termination
  by (relation "measure id") auto

declare str_nat.simps [simp del]

definition str_int :: "int \<Rightarrow> pystr" where
  "str_int i = (if i < 0 then minus_sign # str_nat (nat (- i)) else str_nat (nat i))"

fun frac_digits :: "nat \<Rightarrow> rat \<Rightarrow> pystr" where
  "frac_digits 0 r = []"
| "frac_digits (Suc n) r =
     (if r = 0 then []
      else (let d = nat \<lfloor>r * 10\<rfloor> in (48 + d) # frac_digits n (r * 10 - of_nat d)))"

text \<open>
  \<open>str\<close> of a float is idealised as a positional decimal with at most 17 digits after
  the point (Python prints the shortest digits that read back as the same float, and an
  exponent for very large and very small values). The parser only ever searches this text
  for Hebrew phrases, which no rendering of a number contains.
\<close>

fun str_float :: "pyfloat \<Rightarrow> pystr" where
  "str_float NaN = asc ''nan''"
| "str_float PosInf = asc ''inf''"
| "str_float NegInf = asc ''-inf''"
| "str_float (Fin r) =
     (let a = \<bar>r\<bar>; ip = nat \<lfloor>a\<rfloor>; fd = frac_digits 17 (a - of_nat ip)
      in (if r < 0 then [minus_sign] else []) @ str_nat ip @ [dot] @ (if fd = [] then [48] else fd))"

subsection \<open>Tables\<close>

text \<open>
  \<open>pandas.read_html\<close> gives one DataFrame per table of the page. Its column labels are
  the header texts when the table has a header and the numbers \<open>0, 1, \<dots>\<close> when it has
  none (headers of several rows are not modelled); its rows are numbered from 0 and hold
  strings, integers and floats, an empty cell being the float NaN. A frame is rectangular:
  every row has one cell per column.
\<close>

datatype cell = CStr pystr | CInt int | CFloat pyfloat

datatype labels = Named "pystr list" | Range nat

record DataFrame =
  columns :: labels
  rows :: "cell list list"

fun ncols :: "labels \<Rightarrow> nat" where
  "ncols (Named ls) = length ls"
| "ncols (Range n) = n"

definition shape :: "DataFrame \<Rightarrow> nat \<times> nat" where
  "shape df = (length (rows df), ncols (columns df))"

definition rectangular :: "DataFrame \<Rightarrow> bool" where
  "rectangular df = (\<forall>r \<in> set (rows df). length r = ncols (columns df))"

text \<open>\<open>str(c)\<close> for each column label \<open>c\<close>.\<close>

fun label_strs :: "labels \<Rightarrow> pystr list" where
  "label_strs (Named ls) = ls"
| "label_strs (Range n) = map (\<lambda>i. str_nat i) [0 ..< n]"

fun py_str :: "cell \<Rightarrow> pystr" where
  "py_str (CStr s) = s"
| "py_str (CInt i) = str_int i"
| "py_str (CFloat f) = str_float f"

text \<open>The exceptions the parser can end with.\<close>

datatype error =
    ValueError | KeyError | TypeError | AttributeError | IndexError | OverflowError
  | NotImplementedError

text \<open>Run \<open>f\<close> over a list, stopping at the first exception.\<close>

fun mapM :: "('a \<Rightarrow> error + 'b) \<Rightarrow> 'a list \<Rightarrow> error + 'b list" where
  "mapM f [] = Inr []"
| "mapM f (x # xs) =
     (case f x of
        Inl e \<Rightarrow> Inl e
      | Inr y \<Rightarrow> (case mapM f xs of Inl e \<Rightarrow> Inl e | Inr ys \<Rightarrow> Inr (y # ys)))"

text \<open>
  \<open>float(i)\<close> for an \<open>int\<close>: an integer that rounds to a double is converted, and from
  \<open>2 ** 1024 - 2 ** 970\<close> on (half a unit in the last place above the largest double)
  the conversion raises OverflowError.
\<close>

definition FLOAT_INT_LIMIT :: int where
  "FLOAT_INT_LIMIT = 2 ^ 1024 - 2 ^ 970"

definition float_of_int :: "int \<Rightarrow> error + pyfloat" where
  "float_of_int i = (if \<bar>i\<bar> < FLOAT_INT_LIMIT then Inr (Fin (of_int i)) else Inl OverflowError)"

text \<open>The conversion of a Python \<open>int\<close> to the 64-bit integer of a column of numbers.\<close>

definition int64 :: "int \<Rightarrow> error + int" where
  "int64 i = (if - (2 ^ 63) \<le> i \<and> i < 2 ^ 63 then Inr i else Inl OverflowError)"

text \<open>
  \<open>int(x)\<close> and \<open>float(x)\<close> for a cell, as \<open>astype\<close> applies them; \<open>astype(int)\<close> stores
  the result as a 64-bit integer.
\<close>

fun to_int :: "cell \<Rightarrow> error + int" where
  "to_int (CStr s) = (case int_of_str s of None \<Rightarrow> Inl ValueError | Some i \<Rightarrow> int64 i)"
| "to_int (CInt i) = int64 i"
| "to_int (CFloat (Fin r)) = int64 (if 0 \<le> r then \<lfloor>r\<rfloor> else \<lceil>r\<rceil>)"
| "to_int (CFloat NaN) = Inl ValueError"
| "to_int (CFloat f) = Inl OverflowError"

fun to_float :: "cell \<Rightarrow> error + pyfloat" where
  "to_float (CStr s) = (case float_of_str s of None \<Rightarrow> Inl ValueError | Some f \<Rightarrow> Inr f)"
| "to_float (CInt i) = float_of_int i"
| "to_float (CFloat f) = Inr f"

section \<open>The module \<open>MoonParser\<close>\<close>

subsection \<open>Data structures\<close>

text \<open>
  Modelled from the spec: the module \<open>data_structures\<close> that declares \<open>Semester\<close>,
  \<open>CourseType\<close>, \<open>Course\<close>, \<open>CourseGroup\<close> and \<open>Track\<close> is not among the sources.
  The enumerations have the members the parser names; the fields of the three classes are
  the keyword arguments the parser constructs them with, with the types the data model
  of the specification gives them. \<open>Track.groups\<close>, which the parser assigns after the
  scan, is the field \<open>track_groups\<close>, empty until then. Members of an enumeration are
  objects, hence true in a condition.
\<close>

datatype Semester =
  Semester_A | Semester_B | Semester_EITHER | Semester_ANNUAL | Semester_SUMMER

datatype CourseType = CourseType_MUST | CourseType_FROM_LIST | CourseType_CHOICE

record Course =
  course_id :: int
  name :: pystr
  semester :: Semester
  points :: pyfloat
  hug_id :: int
  is_given_this_year :: bool

text \<open>
  Modelled from the spec: the attribute \<open>id\<close> of a \<open>Course\<close>, which \<open>parse_moon\<close>
  reads, is the catalog identifier passed to the constructor as \<open>course_id\<close>.
\<close>

definition Course_id :: "Course \<Rightarrow> int" where
  "Course_id c = course_id c"

record CourseGroup =
  group_track :: int
  group_course_type :: CourseType
  group_courses :: "int list"
  group_year :: int
  group_index_in_track_year :: int
  required_course_count :: "int option"
  required_points :: "int option"

record Track =
  track_id :: int
  points_must :: pyfloat
  points_from_list :: pyfloat
  points_choice :: pyfloat
  points_complementary :: pyfloat
  points_corner_stones :: pyfloat
  points_minor :: pyfloat
  track_groups :: "CourseGroup list"

subsection \<open>Titles, lexicons and patterns\<close>

text \<open>The Hebrew word for "at least", which three of the patterns start or end with.\<close>

definition AT_LEAST_HEB :: pystr where
  "AT_LEAST_HEB = [lamed, pe, het, vav, tav]"

text \<open>\<open>MIN_POINTS_PATTERN\<close>: "at least", \<open>\s*(\d+)\s*\<close>, the letter nun.\<close>

definition MIN_POINTS_PATTERN :: regex where
  "MIN_POINTS_PATTERN =
     Seq (Lit AT_LEAST_HEB) (Seq (Star Space) (Seq (Group 1 (Plus Digit))
       (Seq (Star Space) (Lit [nun]))))"

text \<open>\<open>MIN_COURSES_PATTERN\<close>: "must study", \<open>.*(\d+)\<close>, " out of a list of courses".\<close>

definition MIN_COURSES_PATTERN :: regex where
  "MIN_COURSES_PATTERN =
     Seq (Lit [yod, shin, sp, lamed, lamed, mem, vav, dalet])
       (Seq (Star AnyChar) (Seq (Group 1 (Plus Digit))
         (Lit [sp, mem, tav, vav, final_kaf, sp, resh, shin, yod, mem, tav, sp, qof,
               vav, resh, samekh, yod, final_mem])))"

text \<open>\<open>MIN_COURSES_ONE_PATTERN\<close>: "at least course 1" and \<open>\s\<close>, or "one of".\<close>

definition MIN_COURSES_ONE_PATTERN :: regex where
  "MIN_COURSES_ONE_PATTERN =
     Alt (Seq (Lit [lamed, pe, het, vav, tav, sp, qof, vav, resh, samekh, sp,
                     digit_one]) (Cls Space))
       (Lit [alef, tav, sp, alef, het, dalet])"

text \<open>\<open>MAX_COURSES_ONE_PATTERN\<close>: "one at most" or "only course 1".\<close>

definition MAX_COURSES_ONE_PATTERN :: regex where
  "MAX_COURSES_ONE_PATTERN =
     Alt (Lit [alef, het, dalet, sp, lamed, kaf, lamed, sp, he, yod, vav, tav, resh])
       (Lit [resh, qof, sp, qof, vav, resh, samekh, sp, digit_one])"

definition COURSE_ID_HEB :: pystr where
  "COURSE_ID_HEB = [mem, samekh, pe, resh, sp, he, qof, vav, resh, samekh]"

definition COURSE_NAME_HEB :: pystr where
  "COURSE_NAME_HEB = [shin, final_mem, sp, he, qof, vav, resh, samekh]"

definition POINTS_HEB :: pystr where
  "POINTS_HEB = [nun, qof, vav, dalet, vav, tav, sp, zayin, kaf, vav, tav]"

definition SEMESTER_HEB :: pystr where
  "SEMESTER_HEB = [samekh, mem, samekh, tet, resh]"

definition MAX_YEAR_HEB :: pystr where
  "MAX_YEAR_HEB = [ayin, dalet, sp, shin, nun, he]"

definition IS_ELEMENTARY_HEB :: pystr where
  "IS_ELEMENTARY_HEB = [qof, vav, resh, samekh, sp, yod, samekh, vav, dalet]"

definition HUG_ID_HEB :: pystr where
  "HUG_ID_HEB = [shin, yod, vav, final_kaf, sp, lamed, het, vav, gimel]"

definition COURSE_ID :: pystr where
  "COURSE_ID = asc ''course_id''"

definition COURSE_NAME :: pystr where
  "COURSE_NAME = asc ''course_name''"

definition POINTS :: pystr where
  "POINTS = asc ''points''"

definition SEMESTER :: pystr where
  "SEMESTER = asc ''semester''"

definition MAX_YEAR :: pystr where
  "MAX_YEAR = asc ''until_year''"

definition IS_ELEMENTARY :: pystr where
  "IS_ELEMENTARY = asc ''is_elementary''"

definition HUG_ID :: pystr where
  "HUG_ID = asc ''belongs_to_hug''"

definition HEB_ENG_TITLES :: "(pystr \<times> pystr) list" where
  "HEB_ENG_TITLES =
     [(COURSE_ID_HEB, COURSE_ID), (COURSE_NAME_HEB, COURSE_NAME), (POINTS_HEB, POINTS),
      (SEMESTER_HEB, SEMESTER), (MAX_YEAR_HEB, MAX_YEAR), (IS_ELEMENTARY_HEB, IS_ELEMENTARY),
      (HUG_ID_HEB, HUG_ID)]"

text \<open>"year" followed by one of the first seven letters and an apostrophe.\<close>

definition YEAR_STRINGS :: "(pystr \<times> int) list" where
  "YEAR_STRINGS =
     [([shin, nun, he, sp, alef, squote], 1), ([shin, nun, he, sp, bet, squote], 2),
      ([shin, nun, he, sp, gimel, squote], 3), ([shin, nun, he, sp, dalet, squote], 4),
      ([shin, nun, he, sp, he, squote], 5), ([shin, nun, he, sp, vav, squote], 6),
      ([shin, nun, he, sp, zayin, squote], 7)]"

definition SEMESTER_STRINGS :: "(pystr \<times> Semester) list" where
  "SEMESTER_STRINGS =
     [([alef, squote], Semester_A),
      ([bet, squote], Semester_B),
      ([alef, squote, sp, alef, vav, sp, bet, squote], Semester_EITHER),
      ([qof, vav, resh, samekh, sp, shin, nun, tav, yod], Semester_ANNUAL),
      ([qof, vav, resh, samekh, sp, qof, yod, final_tsadi], Semester_SUMMER)]"

definition COURSE_TYPE_STRINGS :: "(pystr \<times> CourseType) list" where
  "COURSE_TYPE_STRINGS =
     [([lamed, yod, mem, vav, dalet, yod, sp, het, vav, bet, he], CourseType_MUST),
      ([lamed, yod, mem, vav, dalet, yod, sp, het, vav, bet, tav, sp, bet, het, yod,
        resh, he],
       CourseType_FROM_LIST),
      ([qof, vav, resh, samekh, yod, sp, bet, het, yod, resh, he], CourseType_CHOICE)]"

text \<open>The two conjunctions, "and also" and "or", among the ignorable titles.\<close>

definition AND_HEB :: pystr where
  "AND_HEB = [vav, gimel, final_mem]"

definition OR_HEB :: pystr where
  "OR_HEB = [alef, vav]"

definition IGNORABLE_TITLES :: "pystr list" where
  "IGNORABLE_TITLES =
     [[samekh, he, dquote, kaf, sp, nun, qof, vav, dalet, vav, tav, sp, het, vav, bet,
        he],
      [tav, vav, kaf, nun, yod, tav, sp, he, lamed, yod, mem, vav, dalet, yod,
        final_mem],
      AND_HEB, OR_HEB]"

text \<open>The column names of tables that hold course details.\<close>

definition COURSE_DETAILS_TITLES :: "pystr list" where
  "COURSE_DETAILS_TITLES = [COURSE_NAME_HEB, COURSE_ID_HEB, POINTS_HEB, SEMESTER_HEB]"

definition MUST :: pystr where
  "MUST = [het, vav, bet, he]"

definition MUST_IN_HUG :: pystr where
  "MUST_IN_HUG = [het, vav, bet, he, sp, bet, het, vav, gimel]"

definition MUST_PROGRAMMING :: pystr where
  "MUST_PROGRAMMING = [lamed, yod, mem, vav, dalet, yod, sp, tav, kaf, nun, vav, tav]"

definition MUST_SAFETY_LIBRARY :: pystr where
  "MUST_SAFETY_LIBRARY = [qof, vav, resh, samekh, sp, samekh, pe, resh, yod, yod, he, sp, vav, bet, tet,
      yod, het, vav, tav]"

definition CHOICE_FROM_LIST :: pystr where
  "CHOICE_FROM_LIST = [het, vav, bet, tav, sp, bet, het, yod, resh, he]"

definition CHOICE_IN_HUG :: pystr where
  "CHOICE_IN_HUG = [bet, het, yod, resh, he, sp, bet, het, vav, gimel]"

definition CORNER_STONES :: pystr where
  "CORNER_STONES = [alef, bet, nun, yod, sp, pe, yod, nun, he]"

definition COMPLEMENTARY :: pystr where
  "COMPLEMENTARY = [lamed, yod, mem, vav, dalet, yod, final_mem, sp, mem, shin, lamed, yod, mem, yod,
      final_mem]"

definition ADDITIONAL_HUG :: pystr where
  "ADDITIONAL_HUG = [het, vav, gimel, sp, nun, vav, samekh, final_pe]"

definition MINOR :: pystr where
  "MINOR = [het, tet, yod, bet, he]"

definition NOT_GIVEN_THIS_YEAR :: pystr where
  "NOT_GIVEN_THIS_YEAR = [lparen, lamed, alef, sp, nun, lamed, mem, dalet, sp, he, shin, nun, he, rparen]"

text \<open>
  The literals that appear inside the functions: the abbreviation of "total", "(total)
  points", "(total) points in the department", "within the cluster" and "at most".
\<close>

definition TOTAL_HEB :: pystr where
  "TOTAL_HEB = [samekh, he, dquote, kaf]"

definition TOTAL_POINTS_HEB :: pystr where
  "TOTAL_POINTS_HEB = [kaf, sp, nun, qof, vav, dalet, vav, tav]"

definition TOTAL_POINTS_IN_HUG_HEB :: pystr where
  "TOTAL_POINTS_IN_HUG_HEB = [kaf, sp, nun, qof, vav, dalet, vav, tav, sp, bet, het, vav, gimel]"

definition IN_THE_CLUSTER_HEB :: pystr where
  "IN_THE_CLUSTER_HEB = [bet, mem, samekh, gimel, resh, tav, sp, he, alef, shin, kaf, vav, lamed]"

definition AT_MOST_HEB :: pystr where
  "AT_MOST_HEB = [lamed, kaf, lamed, sp, he, yod, vav, tav, resh]"

text \<open>\<open>RE_RANGE\<close> is \<open>(\d+(?:\.\d+)?)-(?:\.\d+)?\<close>.\<close>

definition RE_RANGE :: regex where
  "RE_RANGE =
     Seq (Group 1 (Seq (Plus Digit) (Opt (Seq (Lit [dot]) (Plus Digit)))))
       (Seq (Lit [minus_sign]) (Opt (Seq (Lit [dot]) (Plus Digit))))"

text \<open>\<open>RE_MIN\<close> is "at least" \<open>\s*(\d+)\<close>, or \<open>(\d+)\s*\<close> "at least".\<close>

definition RE_MIN :: regex where
  "RE_MIN =
     Alt (Seq (Lit AT_LEAST_HEB) (Seq (Star Space) (Group 1 (Plus Digit))))
       (Seq (Group 2 (Plus Digit)) (Seq (Star Space) (Lit AT_LEAST_HEB)))"

subsection \<open>The three lexicon parsers\<close>

definition parse_year :: "pystr \<Rightarrow> error + int" where
  "parse_year string =
     (case map_of YEAR_STRINGS (strip string) of None \<Rightarrow> Inl ValueError | Some y \<Rightarrow> Inr y)"

definition parse_semester :: "pystr \<Rightarrow> error + Semester" where
  "parse_semester string =
     (case map_of SEMESTER_STRINGS (strip string) of None \<Rightarrow> Inl ValueError | Some y \<Rightarrow> Inr y)"

definition parse_course_type :: "pystr \<Rightarrow> error + CourseType" where
  "parse_course_type string =
     (case map_of COURSE_TYPE_STRINGS (strip string) of
        None \<Rightarrow> Inl ValueError
      | Some y \<Rightarrow> Inr y)"

subsection \<open>\<open>parse_course_details\<close>\<close>

text \<open>
  The new column names \<open>[HEB_ENG_TITLES[title] for title in df.loc[0]]\<close>: a cell of the
  first row that is no key of the dictionary is a KeyError.
\<close>

definition header_titles :: "cell list \<Rightarrow> error + pystr list" where
  "header_titles r =
     mapM (\<lambda>c. case c of
                 CStr t \<Rightarrow> (case map_of HEB_ENG_TITLES t of
                              None \<Rightarrow> Inl KeyError
                            | Some e \<Rightarrow> Inr e)
               | _ \<Rightarrow> Inl KeyError) r"

text \<open>
  Nothing keeps two columns from carrying the same title. \<open>df[key]\<close> is then all of
  them, each is converted, and the dictionary of a row keeps the value of the last.
\<close>

definition cells_named :: "pystr list \<Rightarrow> pystr \<Rightarrow> cell list \<Rightarrow> cell list" where
  "cells_named cols key row = map snd (filter (\<lambda>(t, c). t = key) (zip cols row))"

definition convert_column ::
  "(cell \<Rightarrow> error + 'a) \<Rightarrow> pystr \<Rightarrow> pystr list \<Rightarrow> cell list list \<Rightarrow> error + 'a list" where
  "convert_column f key cols data =
     (if key \<notin> set cols then Inl KeyError
      else mapM (\<lambda>row. case mapM f (cells_named cols key row) of
                         Inl e \<Rightarrow> Inl e
                       | Inr vs \<Rightarrow> if vs = [] then Inl IndexError else Inr (last vs)) data)"

text \<open>
  \<open>df[SEMESTER].apply(parse_semester)\<close>: \<open>strip\<close> is an attribute of strings only, and
  with two semester columns \<open>apply\<close> hands \<open>parse_semester\<close> whole columns.
\<close>

definition semester_of_cell :: "cell \<Rightarrow> error + Semester" where
  "semester_of_cell c = (case c of CStr s \<Rightarrow> parse_semester s | _ \<Rightarrow> Inl AttributeError)"

definition semester_column :: "pystr list \<Rightarrow> cell list list \<Rightarrow> error + Semester list" where
  "semester_column cols data =
     (if 1 < count_list cols SEMESTER \<and> data \<noteq> [] then Inl AttributeError
      else convert_column semester_of_cell SEMESTER cols data)"

text \<open>\<open>row[COURSE_NAME]\<close> in the dictionary of a row.\<close>

definition name_cell :: "pystr list \<Rightarrow> cell list \<Rightarrow> error + cell" where
  "name_cell cols row =
     (case map_of (rev (zip cols row)) COURSE_NAME of None \<Rightarrow> Inl KeyError | Some c \<Rightarrow> Inr c)"

text \<open>The body of the loop over the rows; \<open>in\<close> and \<open>replace\<close> need a string.\<close>

fun course_of_row ::
  "pystr list \<Rightarrow> cell list \<times> Semester \<times> int \<times> int \<times> pyfloat \<Rightarrow> error + Course" where
  "course_of_row cols (row, sem, cid, hug, pts) =
     (case name_cell cols row of
        Inl e \<Rightarrow> Inl e
      | Inr (CStr raw) \<Rightarrow>
          (let is_given = \<not> contains NOT_GIVEN_THIS_YEAR raw;
               name = replace NOT_GIVEN_THIS_YEAR [] raw
           in Inr \<lparr>course_id = cid, name = name, semester = sem, points = pts, hug_id = hug,
                    is_given_this_year = is_given\<rparr>)
      | Inr _ \<Rightarrow> Inl TypeError)"

definition parse_course_details :: "DataFrame \<Rightarrow> error + Course list" where
  "parse_course_details df =
     (case rows df of
        [] \<Rightarrow> Inl KeyError
      | titles # data \<Rightarrow>
          (case header_titles titles of
             Inl e \<Rightarrow> Inl e
           | Inr cols \<Rightarrow>
               if length cols \<noteq> ncols (columns df) then Inl ValueError
               else
                 (case semester_column cols data of
                    Inl e \<Rightarrow> Inl e
                  | Inr sems \<Rightarrow>
                      (case convert_column to_int COURSE_ID cols data of
                         Inl e \<Rightarrow> Inl e
                       | Inr ids \<Rightarrow>
                           (case convert_column to_int HUG_ID cols data of
                              Inl e \<Rightarrow> Inl e
                            | Inr hugs \<Rightarrow>
                                (case convert_column to_float POINTS cols data of
                                   Inl e \<Rightarrow> Inl e
                                 | Inr pts \<Rightarrow>
                                     mapM (course_of_row cols)
                                       (zip data (zip sems (zip ids (zip hugs pts))))))))))"

subsection \<open>\<open>parse_track\<close>\<close>

text \<open>
  The seven running sums, and the lines printed so far. The sums start as the integer 0,
  which is not told apart from the float 0.0.
\<close>

record totals =
  must :: pyfloat
  from_list :: pyfloat
  choice :: pyfloat
  corner_stones :: pyfloat
  complementary :: pyfloat
  minor :: pyfloat
  additional_hug :: pyfloat
  printed :: "pystr list"

definition no_totals :: totals where
  "no_totals = \<lparr>must = Fin 0, from_list = Fin 0, choice = Fin 0, corner_stones = Fin 0,
     complementary = Fin 0, minor = Fin 0, additional_hug = Fin 0, printed = []\<rparr>"

text \<open>\<open>not raw_point or pd.isnull(raw_point)\<close>.\<close>

fun no_value :: "cell \<Rightarrow> bool" where
  "no_value (CStr s) = (s = [])"
| "no_value (CInt i) = (i = 0)"
| "no_value (CFloat f) = (f = Fin 0 \<or> f = NaN)"

text \<open>
  The handler of the ValueError of \<open>float(raw_point)\<close>: \<open>None\<close> when neither pattern
  matches. The two errors cannot happen: group 1 of \<open>RE_RANGE\<close> is never empty, one of
  the groups of \<open>RE_MIN\<close> takes part, and both consist of digits.
\<close>

definition match_points :: "pystr \<Rightarrow> error + pyfloat option" where
  "match_points raw_point =
     (case (case re_match RE_RANGE raw_point of
              Some m \<Rightarrow> Some m
            | None \<Rightarrow> re_match RE_MIN raw_point) of
        None \<Rightarrow> Inr None
      | Some m \<Rightarrow>
          (case (case group m 1 of
                   Some g \<Rightarrow> if g \<noteq> [] then Some g else group m 2
                 | None \<Rightarrow> group m 2) of
             None \<Rightarrow> Inl TypeError
           | Some g \<Rightarrow>
               (case float_of_str g of None \<Rightarrow> Inl ValueError | Some p \<Rightarrow> Inr (Some p))))"

text \<open>
  \<open>float(raw_point)\<close> with its handler: the handler catches the ValueError of a string
  only, so the OverflowError of an integer too large for a double leaves the loop.
\<close>

fun points_of :: "cell \<Rightarrow> error + pyfloat option" where
  "points_of (CStr s) =
     (case float_of_str s of Some p \<Rightarrow> Inr (Some p) | None \<Rightarrow> match_points s)"
| "points_of (CInt i) = (case float_of_int i of Inl e \<Rightarrow> Inl e | Inr p \<Rightarrow> Inr (Some p))"
| "points_of (CFloat f) = Inr (Some f)"

text \<open>The chain of \<open>if\<close> and \<open>elif\<close> that picks the sum to add to.\<close>

definition add_points :: "pystr \<Rightarrow> pyfloat \<Rightarrow> totals \<Rightarrow> totals" where
  "add_points category p a =
     (if category \<in> set [MUST, MUST_IN_HUG, MUST_PROGRAMMING, MUST_SAFETY_LIBRARY]
         \<or> contains MUST category
      then a\<lparr>must := fadd (must a) p\<rparr>
      else if contains category CHOICE_FROM_LIST \<or> contains IN_THE_CLUSTER_HEB category
      then a\<lparr>from_list := fadd (from_list a) p\<rparr>
      else if category = CHOICE_IN_HUG then a\<lparr>choice := fadd (choice a) p\<rparr>
      else if contains CORNER_STONES category
      then a\<lparr>corner_stones := fadd (corner_stones a) p\<rparr>
      else if category = COMPLEMENTARY then a\<lparr>complementary := fadd (complementary a) p\<rparr>
      else if category = MINOR then a\<lparr>minor := fadd (minor a) p\<rparr>
      else if category = ADDITIONAL_HUG then a\<lparr>additional_hug := fadd (additional_hug a) p\<rparr>
      else a\<lparr>must := fadd (must a) p\<rparr>)"

definition could_not_parse :: "pystr \<Rightarrow> cell \<Rightarrow> pystr" where
  "could_not_parse category raw_point =
     asc ''could not parse points for category '' @ category @ asc ''='' @ py_str raw_point"

text \<open>The loop over the point cells of one row.\<close>

fun add_row_points :: "pystr \<Rightarrow> cell list \<Rightarrow> totals \<Rightarrow> error + totals" where
  "add_row_points category [] a = Inr a"
| "add_row_points category (raw_point # raw_points) a =
     (if no_value raw_point then add_row_points category raw_points a
      else (case points_of raw_point of
              Inl e \<Rightarrow> Inl e
            | Inr None \<Rightarrow>
                add_row_points category raw_points
                  (a\<lparr>printed := printed a @ [could_not_parse category raw_point]\<rparr>)
            | Inr (Some p) \<Rightarrow> add_row_points category raw_points (add_points category p a)))"

text \<open>\<open>[r[i] for i in point_columns]\<close>; in a rectangular frame every index is in range.\<close>

definition row_cells :: "cell list \<Rightarrow> nat list \<Rightarrow> error + cell list" where
  "row_cells r point_columns =
     mapM (\<lambda>i. if i < length r then Inr (r ! i) else Inl IndexError) point_columns"

text \<open>
  One row. \<open>r[0]\<close> is the first cell of the row: the labels of a row are the column
  labels, and an integer key on a row labelled by strings falls back to the position.
  \<open>in\<close> needs the category to be a string.
\<close>

definition track_row :: "nat list \<Rightarrow> cell list \<Rightarrow> totals \<Rightarrow> error + totals" where
  "track_row point_columns r a =
     (case r of
        [] \<Rightarrow> Inl IndexError
      | c # cs \<Rightarrow>
          (case c of
             CStr category \<Rightarrow>
               if contains TOTAL_HEB category then Inr a
               else (case row_cells r point_columns of
                       Inl e \<Rightarrow> Inl e
                     | Inr raw_points \<Rightarrow> add_row_points category raw_points a)
           | _ \<Rightarrow> Inl TypeError))"

fun track_rows :: "nat list \<Rightarrow> cell list list \<Rightarrow> totals \<Rightarrow> error + totals" where
  "track_rows point_columns [] a = Inr a"
| "track_rows point_columns (r # rs) a =
     (case track_row point_columns r a of
        Inl e \<Rightarrow> Inl e
      | Inr a' \<Rightarrow> track_rows point_columns rs a')"

text \<open>
  \<open>[i for i, c in enumerate(df.columns) if TOTAL_POINTS_HEB in c]\<close>: \<open>in\<close> fails on
  the integer label of a table without header.
\<close>

fun point_columns_of :: "labels \<Rightarrow> error + nat list" where
  "point_columns_of (Named ls) =
     Inr (filter (\<lambda>i. contains TOTAL_POINTS_HEB (ls ! i)) [0 ..< length ls])"
| "point_columns_of (Range n) = (if n = 0 then Inr [] else Inl TypeError)"

text \<open>The track and the lines printed.\<close>

definition parse_track :: "DataFrame \<Rightarrow> int \<Rightarrow> error + Track \<times> pystr list" where
  "parse_track df tid =
     (case point_columns_of (columns df) of
        Inl e \<Rightarrow> Inl e
      | Inr point_columns \<Rightarrow>
          (case track_rows point_columns (rows df) no_totals of
             Inl e \<Rightarrow> Inl e
           | Inr a \<Rightarrow>
               Inr (\<lparr>track_id = tid, points_must = must a, points_from_list = from_list a,
                      points_choice = choice a, points_complementary = complementary a,
                      points_corner_stones = corner_stones a, points_minor = minor a,
                      track_groups = []\<rparr>,
                    printed a)))"

subsection \<open>\<open>parse_moon\<close>\<close>

text \<open>
  The local variables of \<open>parse_moon\<close>, and the lines printed. \<open>parse_moon\<close> is
  modelled from the list of frames that \<open>pd.read_html\<close> returns. What was printed before
  an exception is not kept.
\<close>

record state =
  current_year :: "int option"
  current_type :: "CourseType option"
  min_points :: "int option"
  min_courses :: "int option"
  max_courses :: "int option"
  track :: "Track option"
  index_in_track_year :: int
  courses :: "Course list"
  groups :: "CourseGroup list"
  previous_type :: "CourseType option"
  stdout :: "pystr list"

definition initial :: state where
  "initial = \<lparr>current_year = None, current_type = None, min_points = None, min_courses = None,
     max_courses = None, track = None, index_in_track_year = 0, courses = [], groups = [],
     previous_type = None, stdout = []\<rparr>"

text \<open>An optional integer in a condition: \<open>None\<close> and 0 are false.\<close>

definition truthy :: "int option \<Rightarrow> bool" where
  "truthy x = (x \<noteq> None \<and> x \<noteq> Some 0)"

text \<open>\<open>int(match.group(1))\<close>.\<close>

definition int_of_group :: "captures \<Rightarrow> error + int" where
  "int_of_group m =
     (case group m 1 of
        None \<Rightarrow> Inl TypeError
      | Some g \<Rightarrow> (case int_of_str g of None \<Rightarrow> Inl ValueError | Some n \<Rightarrow> Inr n))"

text \<open>
  The branch for a table of one cell: \<open>Some\<close> of the outcome when a marker is recognised
  and the loop continues with the next table, \<open>None\<close> when the text could not be parsed
  and control falls through to the rest of the body.
\<close>

definition one_cell_table :: "pystr \<Rightarrow> state \<Rightarrow> (error + state) option" where
  "one_cell_table txt s =
     (if txt \<in> set IGNORABLE_TITLES \<or> contains TOTAL_HEB txt then
        Some (Inr (if txt \<in> set [AND_HEB, OR_HEB] then s\<lparr>current_type := previous_type s\<rparr>
                   else s))
      else if txt \<in> set (map fst YEAR_STRINGS) then
        Some (case parse_year txt of
                Inl e \<Rightarrow> Inl e
              | Inr year \<Rightarrow>
                  Inr (if current_year s = None \<or> Some year \<noteq> current_year s
                       then s\<lparr>index_in_track_year := 0, current_year := Some year\<rparr>
                       else s\<lparr>index_in_track_year := index_in_track_year s + 1\<rparr>))
      else if txt \<in> set (map fst COURSE_TYPE_STRINGS) then
        Some (case parse_course_type txt of
                Inl e \<Rightarrow> Inl e
              | Inr t \<Rightarrow> Inr (s\<lparr>current_type := Some t\<rparr>))
      else
        (case re_search MIN_POINTS_PATTERN txt of
           Some m \<Rightarrow>
             Some (case int_of_group m of
                     Inl e \<Rightarrow> Inl e
                   | Inr n \<Rightarrow> Inr (s\<lparr>min_points := Some n\<rparr>))
         | None \<Rightarrow>
             (case re_search MIN_COURSES_PATTERN txt of
                Some m \<Rightarrow>
                  Some (case int_of_group m of
                          Inl e \<Rightarrow> Inl e
                        | Inr n \<Rightarrow> Inr (s\<lparr>min_courses := Some n\<rparr>))
              | None \<Rightarrow>
                  if re_search MIN_COURSES_ONE_PATTERN txt \<noteq> None
                  then Some (Inr (s\<lparr>min_courses := Some 1\<rparr>))
                  else if re_search MAX_COURSES_ONE_PATTERN txt \<noteq> None
                  then Some (Inr (s\<lparr>max_courses := Some 1\<rparr>))
                  else None)))"

text \<open>
  The track-summary test and call. (\<open>parse_track\<close> raises no NotImplementedError, so
  the handler around the call never runs.)
\<close>

definition track_table :: "int \<Rightarrow> DataFrame \<Rightarrow> state \<Rightarrow> error + state" where
  "track_table tid table s =
     (if list_ex (contains TOTAL_POINTS_IN_HUG_HEB) (label_strs (columns table)) then
        (if track s \<noteq> None then Inl ValueError
         else (case parse_track table tid of
                 Inl e \<Rightarrow> Inl e
               | Inr (t, out) \<Rightarrow> Inr (s\<lparr>track := Some t, stdout := stdout s @ out\<rparr>)))
      else Inr s)"

text \<open>\<open>COURSE_DETAILS_TITLES.issubset(titles)\<close>.\<close>

definition is_course_details :: "cell list \<Rightarrow> bool" where
  "is_course_details titles = list_all (\<lambda>t. CStr t \<in> set titles) COURSE_DETAILS_TITLES"

text \<open>The course-details branch and its \<open>else\<close>.\<close>

definition details_table :: "int \<Rightarrow> DataFrame \<Rightarrow> cell list \<Rightarrow> pystr \<Rightarrow> state \<Rightarrow> error + state" where
  "details_table tid table titles txt s =
     (if is_course_details titles then
        (case (current_year s, current_type s) of
           (Some year, Some ty) \<Rightarrow>
             if year = 0 then Inl ValueError
             else
               (case parse_course_details table of
                  Inl e \<Rightarrow> Inl e
                | Inr temp_courses \<Rightarrow>
                    if temp_courses = [] then Inr s
                    else
                      (let ids = map Course_id temp_courses;
                           temp_group =
                             \<lparr>group_track = tid, group_course_type = ty, group_courses = ids,
                              group_year = year,
                              group_index_in_track_year = index_in_track_year s,
                              required_course_count = min_courses s,
                              required_points = min_points s\<rparr>
                       in Inr (s\<lparr>courses := courses s @ temp_courses,
                                  groups := groups s @ [temp_group],
                                  previous_type := current_type s,
                                  min_courses := None, min_points := None,
                                  current_type := None\<rparr>)))
         | _ \<Rightarrow> Inl ValueError)
      else if contains AT_MOST_HEB txt \<and> \<not> truthy (max_courses s) then Inl NotImplementedError
      else Inr s)"

text \<open>
  The body of the loop over the tables: \<open>table.loc[0]\<close> needs a first row and
  \<open>table.iloc[0, 0]\<close> a first cell.
\<close>

definition loop_body :: "int \<Rightarrow> DataFrame \<Rightarrow> state \<Rightarrow> error + state" where
  "loop_body tid table s =
     (case rows table of
        [] \<Rightarrow> Inl KeyError
      | titles # data \<Rightarrow>
          (case titles of
             [] \<Rightarrow> Inl IndexError
           | c # cs \<Rightarrow>
               (let txt = strip (py_str c);
                    rest = (case track_table tid table s of
                              Inl e \<Rightarrow> Inl e
                            | Inr s1 \<Rightarrow> details_table tid table titles txt s1)
                in if shape table = (1, 1)
                   then (case one_cell_table txt s of Some r \<Rightarrow> r | None \<Rightarrow> rest)
                   else rest)))"

fun scan :: "int \<Rightarrow> DataFrame list \<Rightarrow> state \<Rightarrow> error + state" where
  "scan tid [] s = Inr s"
| "scan tid (table # df_list) s =
     (case loop_body tid table s of Inl e \<Rightarrow> Inl e | Inr s' \<Rightarrow> scan tid df_list s')"

definition parse_moon ::
  "DataFrame list \<Rightarrow> int \<Rightarrow> error + Track option \<times> Course list \<times> CourseGroup list" where
  "parse_moon df_list tid =
     (case scan tid df_list initial of
        Inl e \<Rightarrow> Inl e
      | Inr s \<Rightarrow>
          Inr (map_option (\<lambda>t. t\<lparr>track_groups := groups s\<rparr>) (track s), courses s, groups s))"

section \<open>Notions used to state the properties\<close>

text \<open>
  The text of a table of one cell, as the loop computes it; \<open>None\<close> for a table of
  another shape.
\<close>

definition marker_text :: "DataFrame \<Rightarrow> pystr option" where
  "marker_text table =
     (if shape table = (1, 1)
      then (case rows table of (c # cs) # data \<Rightarrow> Some (strip (py_str c)) | _ \<Rightarrow> None)
      else None)"

text \<open>A year marker is a table of one cell whose text is a key of \<open>YEAR_STRINGS\<close>.\<close>

definition year_marker :: "DataFrame \<Rightarrow> int option" where
  "year_marker table =
     (case marker_text table of None \<Rightarrow> None | Some txt \<Rightarrow> map_of YEAR_STRINGS txt)"

text \<open>The years of the year markers of a document, in order.\<close>

definition marker_years :: "DataFrame list \<Rightarrow> int list" where
  "marker_years df_list = List.map_filter year_marker df_list"

text \<open>
  What a year marker does to the pair of \<open>current_year\<close> and \<open>index_in_track_year\<close>.
\<close>

definition year_step :: "int \<Rightarrow> int option \<times> int \<Rightarrow> int option \<times> int" where
  "year_step y = (\<lambda>(cy, idx). if cy = None \<or> cy \<noteq> Some y then (Some y, 0) else (cy, idx + 1))"

text \<open>
  A text is recognised when one of the tests of the branch for tables of one cell
  succeeds: an ignorable title, the year and type lexicons, and the four patterns.
\<close>

definition recognised :: "pystr \<Rightarrow> bool" where
  "recognised t =
     (t \<in> set IGNORABLE_TITLES \<or> contains TOTAL_HEB t \<or> t \<in> set (map fst YEAR_STRINGS)
      \<or> t \<in> set (map fst COURSE_TYPE_STRINGS)
      \<or> re_search MIN_POINTS_PATTERN t \<noteq> None \<or> re_search MIN_COURSES_PATTERN t \<noteq> None
      \<or> re_search MIN_COURSES_ONE_PATTERN t \<noteq> None
      \<or> re_search MAX_COURSES_ONE_PATTERN t \<noteq> None)"

text \<open>
  A text that reaches the search for \<open>MAX_COURSES_ONE_PATTERN\<close> and matches it; an
  at-most-one marker is a table of one cell with such a text.
\<close>

definition at_most_one_text :: "pystr \<Rightarrow> bool" where
  "at_most_one_text t =
     (t \<notin> set IGNORABLE_TITLES \<and> \<not> contains TOTAL_HEB t \<and> t \<notin> set (map fst YEAR_STRINGS)
      \<and> t \<notin> set (map fst COURSE_TYPE_STRINGS)
      \<and> re_search MIN_POINTS_PATTERN t = None \<and> re_search MIN_COURSES_PATTERN t = None
      \<and> re_search MIN_COURSES_ONE_PATTERN t = None
      \<and> re_search MAX_COURSES_ONE_PATTERN t \<noteq> None)"

definition at_most_one_marker :: "DataFrame \<Rightarrow> bool" where
  "at_most_one_marker table =
     (case marker_text table of None \<Rightarrow> False | Some t \<Rightarrow> at_most_one_text t)"

text \<open>
  \<open>extra_markers d1 d2\<close>: the document \<open>d2\<close> is \<open>d1\<close> with at-most-one markers
  added, anywhere.
\<close>

inductive extra_markers :: "DataFrame list \<Rightarrow> DataFrame list \<Rightarrow> bool" where
  same_end: "extra_markers [] []"
| same_table: "extra_markers d1 d2 \<Longrightarrow> extra_markers (table # d1) (table # d2)"
| added_marker: "at_most_one_marker table \<Longrightarrow> extra_markers d1 d2 \<Longrightarrow> extra_markers d1 (table # d2)"

text \<open>
  The courses extracted from a table: those \<open>parse_course_details\<close> returns when the
  first row holds the course-detail titles, none for any other table.
\<close>

definition details_of :: "DataFrame \<Rightarrow> Course list" where
  "details_of table =
     (case rows table of
        [] \<Rightarrow> []
      | titles # data \<Rightarrow>
          if is_course_details titles
          then (case parse_course_details table of Inl e \<Rightarrow> [] | Inr cs \<Rightarrow> cs)
          else [])"

text \<open>
  Two states that differ at most in \<open>max_courses\<close>, the second having it set whenever
  the first has.
\<close>

definition same_but_max :: "state \<Rightarrow> state \<Rightarrow> bool" where
  "same_but_max s1 s2 =
     (\<exists>m. s2 = s1\<lparr>max_courses := m\<rparr> \<and> (truthy (max_courses s1) \<longrightarrow> truthy m))"

text \<open>
  The texts the groups of \<open>RE_RANGE\<close> and \<open>RE_MIN\<close> capture: digits, or digits,
  a point and digits.
\<close>

definition all_digits :: "pystr \<Rightarrow> bool" where
  "all_digits ds = (ds \<noteq> [] \<and> list_all is_digit ds)"

definition decimal :: "pystr \<Rightarrow> bool" where
  "decimal x = (all_digits x \<or> (\<exists>a b. all_digits a \<and> all_digits b \<and> x = a @ dot # b))"

text \<open>A pattern without capturing groups.\<close>

primrec groupless :: "regex \<Rightarrow> bool" where
  "groupless (Lit l) = True"
| "groupless (Cls c) = True"
| "groupless (Star c) = True"
| "groupless (Plus c) = True"
| "groupless (Opt r) = groupless r"
| "groupless (Seq a b) = (groupless a \<and> groupless b)"
| "groupless (Alt a b) = (groupless a \<and> groupless b)"
| "groupless (Group n r) = False"





text \<open>
  A cell that \<open>float\<close> converts or rejects with a ValueError: every cell but an integer
  too large for a double, on which \<open>float\<close> raises OverflowError.
\<close>

definition convertible :: "cell \<Rightarrow> bool" where
  "convertible c = (case c of CInt i \<Rightarrow> \<bar>i\<bar> < FLOAT_INT_LIMIT | _ \<Rightarrow> True)"

text \<open>A row of the category "additional department".\<close>

definition additional_hug_row :: "cell list \<Rightarrow> bool" where
  "additional_hug_row r = (case r of CStr c # cs \<Rightarrow> c = ADDITIONAL_HUG | _ \<Rightarrow> False)"

text \<open>The six sums that \<open>parse_track\<close> stores in the track.\<close>

definition track_sums :: "totals \<Rightarrow> pyfloat \<times> pyfloat \<times> pyfloat \<times> pyfloat \<times> pyfloat \<times> pyfloat" where
  "track_sums a = (must a, from_list a, choice a, complementary a, corner_stones a, minor a)"

text \<open>
  A table in which no row of the category "additional department" holds an integer too
  large for \<open>float\<close>.
\<close>

definition hug_rows_convertible :: "DataFrame \<Rightarrow> bool" where
  "hug_rows_convertible df = list_all (list_all convertible) (filter additional_hug_row (rows df))"

subsection \<open>Example tables\<close>

text \<open>A table of one cell without header, and the markers of the years 1 and 2.\<close>

definition one_cell :: "pystr \<Rightarrow> DataFrame" where
  "one_cell t = \<lparr>columns = Range 1, rows = [[CStr t]]\<rparr>"

definition YEAR_1 :: pystr where
  "YEAR_1 = [shin, nun, he, sp, alef, squote]"

definition YEAR_2 :: pystr where
  "YEAR_2 = [shin, nun, he, sp, bet, squote]"

text \<open>
  A course-detail table with the four titles and the department column, and two courses:
  101, "X " followed by the annotation, 3.0 points, semester A, department 12; and 102,
  "Y", 2 points, semester B, department 12.
\<close>

definition example_details :: DataFrame where
  "example_details =
     \<lparr>columns = Range 5,
      rows =
        [[CStr COURSE_ID_HEB, CStr COURSE_NAME_HEB, CStr POINTS_HEB, CStr SEMESTER_HEB,
          CStr HUG_ID_HEB],
         [CStr (asc ''101''), CStr (asc ''X '' @ NOT_GIVEN_THIS_YEAR), CStr (asc ''3.0''),
          CStr [alef, squote], CStr (asc ''12'')],
         [CStr (asc ''102''), CStr (asc ''Y''), CStr (asc ''2''), CStr [bet, squote],
          CStr (asc ''12'')]]\<rparr>"

definition example_courses :: "Course list" where
  "example_courses =
     [\<lparr>course_id = 101, name = asc ''X '', semester = Semester_A, points = Fin 3, hug_id = 12,
       is_given_this_year = False\<rparr>,
      \<lparr>course_id = 102, name = asc ''Y'', semester = Semester_B, points = Fin 2, hug_id = 12,
       is_given_this_year = True\<rparr>]"

text \<open>The type marker "mandatory studies" and the marker "one at most".\<close>

definition TYPE_MUST :: pystr where
  "TYPE_MUST = [lamed, yod, mem, vav, dalet, yod, sp, het, vav, bet, he]"

definition ONE_AT_MOST :: pystr where
  "ONE_AT_MOST = [alef, het, dalet, sp, lamed, kaf, lamed, sp, he, yod, vav, tav, resh]"

text \<open>
  A state in which a year and a type are set, 12 points are pending and an at-most-one
  marker has been seen.
\<close>

definition ready :: state where
  "ready = initial\<lparr>current_year := Some 1, current_type := Some CourseType_MUST,
     min_points := Some 12, max_courses := Some 1\<rparr>"

text \<open>A document: year 1, mandatory studies, the course-detail table.\<close>

definition example_document :: "DataFrame list" where
  "example_document = [one_cell YEAR_1, one_cell TYPE_MUST, example_details]"

definition example_group :: CourseGroup where
  "example_group =
     \<lparr>group_track = 7, group_course_type = CourseType_MUST, group_courses = [101, 102],
      group_year = 1, group_index_in_track_year = 0, required_course_count = None,
      required_points = None\<rparr>"

text \<open>
  A table of one cell under the header "total points in the department", and the track
  without any points.
\<close>

definition headed_cell :: DataFrame where
  "headed_cell =
     \<lparr>columns = Named [[samekh, he, dquote] @ TOTAL_POINTS_IN_HUG_HEB],
      rows = [[CStr (asc ''foo'')]]\<rparr>"

definition empty_track :: Track where
  "empty_track =
     \<lparr>track_id = 7, points_must = Fin 0, points_from_list = Fin 0, points_choice = Fin 0,
      points_complementary = Fin 0, points_corner_stones = Fin 0, points_minor = Fin 0,
      track_groups = []\<rparr>"

text \<open>
  Track-summary tables with one row under the headers "category" and "total points in
  the department": an unknown label with 5 points, and "corner stones" followed by
  "mandatory" with the range 3-4.
\<close>

definition summary_columns :: labels where
  "summary_columns = Named [asc ''category'', [samekh, he, dquote] @ TOTAL_POINTS_IN_HUG_HEB]"

definition unknown_label_table :: DataFrame where
  "unknown_label_table =
     \<lparr>columns = summary_columns, rows = [[CStr (asc ''completely unknown label''), CInt 5]]\<rparr>"

definition corner_must_table :: DataFrame where
  "corner_must_table =
     \<lparr>columns = summary_columns,
      rows = [[CStr (CORNER_STONES @ [sp] @ MUST), CStr (asc ''3-4'')]]\<rparr>"

text \<open>
  The table of the unknown label with two rows of the category "additional department"
  added, one with 12 points and one with a text that is no number.
\<close>

definition with_hug_table :: DataFrame where
  "with_hug_table =
     \<lparr>columns = summary_columns,
      rows = [[CStr ADDITIONAL_HUG, CStr (asc ''12'')],
              [CStr (asc ''completely unknown label''), CInt 5],
              [CStr ADDITIONAL_HUG, CStr (asc ''n/a'')]]\<rparr>"

text \<open>
  The table of the unknown label with a row of the category "additional department" added
  that holds an integer too large for \<open>float\<close>.
\<close>

definition oversize_hug_table :: DataFrame where
  "oversize_hug_table =
     \<lparr>columns = summary_columns,
      rows = [[CStr (asc ''completely unknown label''), CInt 5],
              [CStr ADDITIONAL_HUG, CInt (2 ^ 1024)]]\<rparr>"
section \<open>Properties\<close>

subsection \<open>Evaluation of the lexicons\<close>

lemmas text_defs = asc_def is_space_def WHITESPACE_def strip_def
lemmas lexicon_defs = YEAR_STRINGS_def COURSE_TYPE_STRINGS_def IGNORABLE_TITLES_def AND_HEB_def
  OR_HEB_def TOTAL_HEB_def

subsection \<open>Year markers\<close>

lemma year_keys_a:
  assumes "(txt, y) \<in> set YEAR_STRINGS"
  shows "txt \<notin> set IGNORABLE_TITLES"
  using assms by (auto simp: lexicon_defs)

lemma year_keys_b:
  assumes "(txt, y) \<in> set YEAR_STRINGS"
  shows "\<not> contains TOTAL_HEB txt"
  using assms by (auto simp: lexicon_defs)

lemma year_keys_c:
  assumes "(txt, y) \<in> set YEAR_STRINGS"
  shows "strip txt = txt"
  using assms by (auto simp: YEAR_STRINGS_def text_defs)

lemma year_keys_d:
  assumes "(txt, y) \<in> set YEAR_STRINGS"
  shows "map_of YEAR_STRINGS txt = Some y"
  using assms by (auto simp: YEAR_STRINGS_def)


lemma year_key_step:
  assumes "(txt, y) \<in> set YEAR_STRINGS"
  shows "one_cell_table txt s =
     Some (Inr (if current_year s = None \<or> current_year s \<noteq> Some y
                then s\<lparr>index_in_track_year := 0, current_year := Some y\<rparr>
                else s\<lparr>index_in_track_year := index_in_track_year s + 1\<rparr>))"
proof -
  have key: "txt \<in> set (map fst YEAR_STRINGS)"
    using assms by force
  have year: "parse_year txt = Inr y"
    by (simp add: parse_year_def year_keys_c [OF assms] year_keys_d [OF assms])
  show ?thesis
    unfolding one_cell_table_def
    using year_keys_a [OF assms] year_keys_b [OF assms] key year
    by (auto simp del: set_map)
qed

lemma one_cell_table_keeps_year:
  assumes "one_cell_table txt s = Some (Inr s')" "txt \<notin> set (map fst YEAR_STRINGS)"
  shows "current_year s' = current_year s \<and> index_in_track_year s' = index_in_track_year s"
  using assms unfolding one_cell_table_def
  by (auto simp del: set_map split: if_splits option.splits sum.splits)

lemma track_table_keeps:
  assumes "track_table tid table s = Inr s1"
  shows "current_year s1 = current_year s" "current_type s1 = current_type s"
    "min_points s1 = min_points s" "min_courses s1 = min_courses s"
    "max_courses s1 = max_courses s" "index_in_track_year s1 = index_in_track_year s"
    "courses s1 = courses s" "groups s1 = groups s" "previous_type s1 = previous_type s"
  using assms
  by (auto simp: track_table_def split: if_splits sum.splits prod.splits)

lemma details_table_keeps_year:
  assumes "details_table tid table titles txt s = Inr s'"
  shows "current_year s' = current_year s \<and> index_in_track_year s' = index_in_track_year s"
  using assms
  by (auto simp: details_table_def Let_def split: if_splits option.splits sum.splits)


lemma year_marker_SomeD:
  assumes "year_marker table = Some y"
  obtains c cs data where "shape table = (1, 1)" "rows table = (c # cs) # data"
    "(strip (py_str c), y) \<in> set YEAR_STRINGS"
  using assms
  by (auto simp: year_marker_def marker_text_def split: if_splits list.splits option.splits
      dest: map_of_SomeD)

lemma loop_body_year_marker:
  assumes "year_marker table = Some y"
  shows "loop_body tid table s =
     Inr (if current_year s = None \<or> current_year s \<noteq> Some y
          then s\<lparr>index_in_track_year := 0, current_year := Some y\<rparr>
          else s\<lparr>index_in_track_year := index_in_track_year s + 1\<rparr>)"
proof -
  from assms obtain c cs data where t: "shape table = (1, 1)" "rows table = (c # cs) # data"
    and k: "(strip (py_str c), y) \<in> set YEAR_STRINGS"
    by (rule year_marker_SomeD)
  show ?thesis
    by (simp add: loop_body_def t Let_def year_key_step [OF k])
qed

lemma loop_body_keeps_year:
  assumes "year_marker table = None" "loop_body tid table s = Inr s'"
  shows "current_year s' = current_year s \<and> index_in_track_year s' = index_in_track_year s"
proof -
  from assms(2) obtain c cs data where r: "rows table = (c # cs) # data"
    by (auto simp: loop_body_def split: list.splits)
  let ?tx = "strip (py_str c)"
  have rest: "current_year s' = current_year s \<and> index_in_track_year s' = index_in_track_year s"
    if "(case track_table tid table s of Inl e \<Rightarrow> Inl e
         | Inr s1 \<Rightarrow> details_table tid table (c # cs) ?tx s1) = Inr s'"
  proof -
    from that obtain s1 where s1: "track_table tid table s = Inr s1"
      and d: "details_table tid table (c # cs) ?tx s1 = Inr s'"
      by (auto split: sum.splits)
    from details_table_keeps_year [OF d] track_table_keeps [OF s1] show ?thesis by simp
  qed
  show ?thesis
  proof (cases "shape table = (1, 1)")
    case True
    with assms(1) r have nk: "?tx \<notin> set (map fst YEAR_STRINGS)"
      by (simp add: year_marker_def marker_text_def map_of_eq_None_iff)
    show ?thesis
    proof (cases "one_cell_table ?tx s")
      case None
      with assms(2) r True rest show ?thesis
        by (simp add: loop_body_def Let_def)
    next
      case (Some res)
      with assms(2) r True have "one_cell_table ?tx s = Some (Inr s')"
        by (simp add: loop_body_def Let_def)
      from one_cell_table_keeps_year [OF this nk] show ?thesis .
    qed
  next
    case False
    with assms(2) r rest show ?thesis
      by (simp add: loop_body_def Let_def)
  qed
qed

lemma scan_years:
  assumes "scan tid df_list s = Inr s'"
  shows "(current_year s', index_in_track_year s') =
     fold year_step (marker_years df_list) (current_year s, index_in_track_year s)"
  using assms
proof (induction df_list arbitrary: s)
  case Nil
  then show ?case by (simp add: marker_years_def)
next
  case (Cons table df_list)
  from Cons.prems obtain s1 where b: "loop_body tid table s = Inr s1"
    and r: "scan tid df_list s1 = Inr s'"
    by (auto split: sum.splits)
  show ?case
  proof (cases "year_marker table")
    case None
    with loop_body_keeps_year [OF None b] Cons.IH [OF r] show ?thesis
      by (simp add: marker_years_def map_filter_simps)
  next
    case (Some y)
    from b have "(current_year s1, index_in_track_year s1) =
        year_step y (current_year s, index_in_track_year s)"
      by (auto simp: loop_body_year_marker [OF Some] year_step_def)
    with Cons.IH [OF r] Some show ?thesis
      by (simp add: marker_years_def map_filter_simps)
  qed
qed

text \<open>
  Claim C1. A year marker whose year differs from \<open>current_year\<close>, or that comes when
  none is set, resets \<open>index_in_track_year\<close> to 0 and sets \<open>current_year\<close>; one whose
  year equals \<open>current_year\<close> adds 1 to \<open>index_in_track_year\<close>. Hence in a document
  whose year markers are 1, 1, 2, 1 the index is 0, 1, 0, 0 after the first, second, third
  and fourth of them, whatever other tables stand between them.
\<close>

theorem year_marker_index_in_track_year:
  "(year_marker table = Some y \<longrightarrow>
      loop_body tid table s =
        Inr (if current_year s = None \<or> current_year s \<noteq> Some y
             then s\<lparr>index_in_track_year := 0, current_year := Some y\<rparr>
             else s\<lparr>index_in_track_year := index_in_track_year s + 1\<rparr>))
   \<and> (scan tid df_list initial = Inr s' \<longrightarrow>
        (marker_years df_list = [1] \<longrightarrow> index_in_track_year s' = 0) \<and>
        (marker_years df_list = [1, 1] \<longrightarrow> index_in_track_year s' = 1) \<and>
        (marker_years df_list = [1, 1, 2] \<longrightarrow> index_in_track_year s' = 0) \<and>
        (marker_years df_list = [1, 1, 2, 1] \<longrightarrow> index_in_track_year s' = 0))"
proof (intro conjI impI)
  assume "year_marker table = Some y"
  then show "loop_body tid table s =
        Inr (if current_year s = None \<or> current_year s \<noteq> Some y
             then s\<lparr>index_in_track_year := 0, current_year := Some y\<rparr>
             else s\<lparr>index_in_track_year := index_in_track_year s + 1\<rparr>)"
    by (rule loop_body_year_marker)
next
  assume "scan tid df_list initial = Inr s'" "marker_years df_list = [1]"
  from scan_years [OF this(1)] this(2) show "index_in_track_year s' = 0"
    by (simp add: initial_def year_step_def)
next
  assume "scan tid df_list initial = Inr s'" "marker_years df_list = [1, 1]"
  from scan_years [OF this(1)] this(2) show "index_in_track_year s' = 1"
    by (simp add: initial_def year_step_def)
next
  assume "scan tid df_list initial = Inr s'" "marker_years df_list = [1, 1, 2]"
  from scan_years [OF this(1)] this(2) show "index_in_track_year s' = 0"
    by (simp add: initial_def year_step_def)
next
  assume "scan tid df_list initial = Inr s'" "marker_years df_list = [1, 1, 2, 1]"
  from scan_years [OF this(1)] this(2) show "index_in_track_year s' = 0"
    by (simp add: initial_def year_step_def)
qed

lemma year_marker_one_cell:
  "year_marker (one_cell YEAR_1) = Some 1" "year_marker (one_cell YEAR_2) = Some 2"
  by (simp_all add: year_marker_def marker_text_def one_cell_def shape_def YEAR_1_def YEAR_2_def
      YEAR_STRINGS_def text_defs)


theorem year_marker_index_in_track_year_witness:
  "loop_body 7 (one_cell YEAR_1) initial =
     Inr (initial\<lparr>index_in_track_year := 0, current_year := Some 1\<rparr>)
   \<and> map (\<lambda>d. map_sum id index_in_track_year (scan 7 d initial))
       [[one_cell YEAR_1],
        [one_cell YEAR_1, one_cell YEAR_1],
        [one_cell YEAR_1, one_cell YEAR_1, one_cell YEAR_2],
        [one_cell YEAR_1, one_cell YEAR_1, one_cell YEAR_2, one_cell YEAR_1]] =
     [Inr 0, Inr 1, Inr 0, Inr 0]"
proof -
  note m = year_marker_one_cell
  note main = year_marker_index_in_track_year
  have step: "loop_body 7 (one_cell YEAR_1) initial =
     Inr (initial\<lparr>index_in_track_year := 0, current_year := Some 1\<rparr>)"
    using main [of "one_cell YEAR_1" 1 7 initial "[]" initial] m
    by (simp add: initial_def)
  obtain s1 where s1: "scan 7 [one_cell YEAR_1] initial = Inr s1"
    by (simp add: loop_body_year_marker m)
  obtain s2 where s2: "scan 7 [one_cell YEAR_1, one_cell YEAR_1] initial = Inr s2"
    by (simp add: loop_body_year_marker m)
  obtain s3 where s3: "scan 7 [one_cell YEAR_1, one_cell YEAR_1, one_cell YEAR_2] initial = Inr s3"
    by (simp add: loop_body_year_marker m)
  obtain s4 where s4:
    "scan 7 [one_cell YEAR_1, one_cell YEAR_1, one_cell YEAR_2, one_cell YEAR_1] initial = Inr s4"
    by (simp add: loop_body_year_marker m)
  have "index_in_track_year s1 = 0"
    using main [where tid = 7 and s' = s1 and df_list = "[one_cell YEAR_1]"] s1
    by (simp add: marker_years_def map_filter_simps m)
  moreover have "index_in_track_year s2 = 1"
    using main [where tid = 7 and s' = s2 and df_list = "[one_cell YEAR_1, one_cell YEAR_1]"] s2
    by (simp add: marker_years_def map_filter_simps m)
  moreover have "index_in_track_year s3 = 0"
    using main [where tid = 7 and s' = s3
        and df_list = "[one_cell YEAR_1, one_cell YEAR_1, one_cell YEAR_2]"] s3
    by (simp add: marker_years_def map_filter_simps m)
  moreover have "index_in_track_year s4 = 0"
    using main [where tid = 7 and s' = s4
        and df_list = "[one_cell YEAR_1, one_cell YEAR_1, one_cell YEAR_2, one_cell YEAR_1]"] s4
    by (simp add: marker_years_def map_filter_simps m)
  ultimately show ?thesis
    using step s1 s2 s3 s4 by simp
qed

subsection \<open>Course details before a year and a type\<close>

lemmas title_defs = COURSE_ID_HEB_def COURSE_NAME_HEB_def POINTS_HEB_def SEMESTER_HEB_def
  MAX_YEAR_HEB_def IS_ELEMENTARY_HEB_def HUG_ID_HEB_def COURSE_ID_def COURSE_NAME_def POINTS_def
  SEMESTER_def MAX_YEAR_def IS_ELEMENTARY_def HUG_ID_def HEB_ENG_TITLES_def
  COURSE_DETAILS_TITLES_def
lemmas number_defs = is_digit_def digit_zero_def DIGIT_ZEROS_def digit_value_def unsigned_def
  signed_def is_number_space_def number_strip_def int_of_str_def lower_def split_at_def
  mantissa_def exponent_def scale10_def float_of_str_def int64_def float_of_int_def
  FLOAT_INT_LIMIT_def

lemma mapM_length:
  assumes "mapM f xs = Inr ys"
  shows "length ys = length xs"
  using assms
  by (induction xs arbitrary: ys) (auto split: sum.splits)

lemma mapM_nth:
  assumes "mapM f xs = Inr ys" "i < length xs"
  shows "f (xs ! i) = Inr (ys ! i)"
  using assms
proof (induction xs arbitrary: ys i)
  case Nil
  then show ?case by simp
next
  case (Cons x xs)
  then show ?case
    by (cases i) (auto split: sum.splits)
qed

lemma is_course_details_length:
  assumes "is_course_details titles"
  shows "4 \<le> length titles"
proof -
  have d: "distinct (map CStr COURSE_DETAILS_TITLES)"
    by (simp add: title_defs)
  from assms have "set (map CStr COURSE_DETAILS_TITLES) \<subseteq> set titles"
    by (auto simp: is_course_details_def list_all_iff)
  then have "card (set (map CStr COURSE_DETAILS_TITLES)) \<le> card (set titles)"
    by (intro card_mono) auto
  moreover have "card (set (map CStr COURSE_DETAILS_TITLES)) = 4"
    using distinct_card [OF d] by (simp add: COURSE_DETAILS_TITLES_def)
  moreover have "card (set titles) \<le> length titles"
    by (rule card_length)
  ultimately show ?thesis by simp
qed

lemma parse_course_details_ncols:
  assumes "parse_course_details table = Inr cs" "rows table = titles # data"
  shows "ncols (columns table) = length titles"
  using assms
  by (auto simp: parse_course_details_def header_titles_def split: sum.splits if_splits
      dest: mapM_length)

lemma details_table_unset:
  assumes "is_course_details titles" "current_year s = None \<or> current_type s = None"
  shows "details_table tid table titles txt s = Inl ValueError"
  using assms
  by (auto simp: details_table_def split: option.splits)

lemma scan_append:
  "scan tid (xs @ ys) s = (case scan tid xs s of Inl e \<Rightarrow> Inl e | Inr s' \<Rightarrow> scan tid ys s')"
  by (induction xs arbitrary: s) (auto split: sum.splits)

lemma loop_body_wide:
  assumes "rows table = (c # cs) # data" "ncols (columns table) \<noteq> 1"
  shows "loop_body tid table s =
     (case track_table tid table s of
        Inl e \<Rightarrow> Inl e
      | Inr s1 \<Rightarrow> details_table tid table (c # cs) (strip (py_str c)) s1)"
  using assms by (simp add: loop_body_def shape_def Let_def)

text \<open>
  Claim C3. When a table whose first row holds the course-detail titles is reached while
  \<open>current_year\<close> or \<open>current_type\<close> is unset, the body of the loop raises, and so does
  \<open>parse_moon\<close> for the whole document: no track, course list or group list is returned.
\<close>

theorem details_before_year_or_type:
  assumes "rectangular table" "rows table = titles # data" "is_course_details titles"
    and "scan tid before initial = Inr s" "current_year s = None \<or> current_type s = None"
  shows "isl (loop_body tid table s) \<and> isl (parse_moon (before @ table # after) tid)"
proof -
  from assms(1,2) have n: "ncols (columns table) = length titles"
    by (simp add: rectangular_def)
  with is_course_details_length [OF assms(3)] have w: "ncols (columns table) \<noteq> 1"
    by simp
  from is_course_details_length [OF assms(3)] obtain c cs where t: "titles = c # cs"
    by (cases titles) auto
  have b: "isl (loop_body tid table s)"
  proof (cases "track_table tid table s")
    case (Inl e)
    then show ?thesis
      using assms(2) t w by (simp add: loop_body_wide)
  next
    case (Inr s1)
    with assms(5) have "current_year s1 = None \<or> current_type s1 = None"
      by (simp add: track_table_keeps [OF Inr])
    from details_table_unset [OF assms(3) this] Inr show ?thesis
      using assms(2) t w by (simp add: loop_body_wide)
  qed
  then have "isl (scan tid (before @ table # after) initial)"
    by (auto simp: scan_append assms(4) split: sum.splits)
  then have "isl (parse_moon (before @ table # after) tid)"
    by (auto simp: parse_moon_def split: sum.splits)
  with b show ?thesis ..
qed

lemma example_details_titles:
  "is_course_details (hd (rows example_details))" "rectangular example_details"
  by (simp_all add: is_course_details_def example_details_def rectangular_def
      COURSE_DETAILS_TITLES_def)

theorem details_before_year_or_type_witness:
  "isl (loop_body 7 example_details initial) \<and> isl (parse_moon [example_details] 7)"
proof -
  have r: "rows example_details = hd (rows example_details) # tl (rows example_details)"
    by (simp add: example_details_def)
  have s: "scan 7 [] initial = Inr initial" "current_year initial = None \<or> current_type initial = None"
    by (simp_all add: initial_def)
  from details_before_year_or_type [OF example_details_titles(2) r example_details_titles(1) s,
      of "[]"]
  show ?thesis by simp
qed

subsection \<open>The example tables\<close>

lemma example_header:
  "header_titles (hd (rows example_details)) = Inr [COURSE_ID, COURSE_NAME, POINTS, SEMESTER, HUG_ID]"
  by (simp add: header_titles_def example_details_def title_defs asc_def)

lemma example_sem: "semester_column [COURSE_ID, COURSE_NAME, POINTS, SEMESTER, HUG_ID] (tl (rows example_details)) = Inr [Semester_A, Semester_B]"
  by (simp add: semester_column_def convert_column_def cells_named_def semester_of_cell_def parse_semester_def SEMESTER_STRINGS_def example_details_def title_defs text_defs)

lemma example_ids: "convert_column to_int COURSE_ID [COURSE_ID, COURSE_NAME, POINTS, SEMESTER, HUG_ID] (tl (rows example_details)) = Inr [101, 102]"
  by (simp add: convert_column_def cells_named_def example_details_def title_defs text_defs number_defs)

lemma example_hugs: "convert_column to_int HUG_ID [COURSE_ID, COURSE_NAME, POINTS, SEMESTER, HUG_ID] (tl (rows example_details)) = Inr [12, 12]"
  by (simp add: convert_column_def cells_named_def example_details_def title_defs text_defs number_defs)

lemma example_pts: "convert_column to_float POINTS [COURSE_ID, COURSE_NAME, POINTS, SEMESTER, HUG_ID] (tl (rows example_details)) = Inr [Fin 3, Fin 2]"
  by (simp add: convert_column_def cells_named_def example_details_def title_defs text_defs number_defs)


lemma example_details_courses: "parse_course_details example_details = Inr example_courses"
proof -
  have r: "rows example_details = hd (rows example_details) # tl (rows example_details)"
    by (simp add: example_details_def)
  have n: "ncols (columns example_details) = 5"
    by (simp add: example_details_def)
  have c: "mapM (course_of_row [COURSE_ID, COURSE_NAME, POINTS, SEMESTER, HUG_ID])
      (zip (tl (rows example_details))
        [(Semester_A, 101, 12, Fin 3), (Semester_B, 102, 12, Fin 2)]) =
      Inr example_courses"
    by (simp add: example_details_def example_courses_def name_cell_def title_defs asc_def
        NOT_GIVEN_THIS_YEAR_def)
  show ?thesis
    unfolding parse_course_details_def
    by (subst r) (simp add: example_header example_sem example_ids example_hugs example_pts n c)
qed

lemmas pattern_defs = MIN_POINTS_PATTERN_def MIN_COURSES_PATTERN_def MIN_COURSES_ONE_PATTERN_def
  MAX_COURSES_ONE_PATTERN_def RE_RANGE_def RE_MIN_def AT_LEAST_HEB_def re_match_def

lemma marker_text_one_cell: "marker_text (one_cell t) = Some (strip t)"
  by (simp add: marker_text_def one_cell_def shape_def)

lemma one_at_most_marker: "at_most_one_marker (one_cell ONE_AT_MOST)"
  by (simp add: at_most_one_marker_def at_most_one_text_def marker_text_one_cell ONE_AT_MOST_def
      lexicon_defs
      text_defs pattern_defs)

lemma type_must_marker:
  "loop_body tid (one_cell TYPE_MUST) s = Inr (s\<lparr>current_type := Some CourseType_MUST\<rparr>)"
  by (simp add: loop_body_def one_cell_def shape_def one_cell_table_def TYPE_MUST_def
      lexicon_defs text_defs parse_course_type_def)

subsection \<open>What emitting a group resets\<close>

lemma track_table_no_summary:
  assumes "\<not> list_ex (contains TOTAL_POINTS_IN_HUG_HEB) (label_strs (columns table))"
  shows "track_table tid table s = Inr s"
  using assms by (simp add: track_table_def)

lemma details_table_emits:
  assumes "is_course_details titles" "parse_course_details table = Inr temp_courses"
    "temp_courses \<noteq> []" "details_table tid table titles txt s = Inr s'"
  shows "\<exists>year ty. current_year s = Some year \<and> current_type s = Some ty \<and>
     s' = s\<lparr>courses := courses s @ temp_courses,
             groups := groups s @
               [\<lparr>group_track = tid, group_course_type = ty,
                 group_courses = map Course_id temp_courses, group_year = year,
                 group_index_in_track_year = index_in_track_year s,
                 required_course_count = min_courses s, required_points = min_points s\<rparr>],
             previous_type := Some ty, min_courses := None, min_points := None,
             current_type := None\<rparr>"
  using assms
  by (auto simp: details_table_def Let_def split: option.splits if_splits)

lemma loop_body_details:
  assumes "rows table = titles # data" "is_course_details titles"
    "parse_course_details table = Inr temp_courses"
  shows "loop_body tid table s =
     (case track_table tid table s of
        Inl e \<Rightarrow> Inl e
      | Inr s1 \<Rightarrow> details_table tid table titles (strip (py_str (hd titles))) s1)"
proof -
  from is_course_details_length [OF assms(2)] obtain c cs where t: "titles = c # cs"
    by (cases titles) auto
  from parse_course_details_ncols [OF assms(3,1)] is_course_details_length [OF assms(2)]
  have "ncols (columns table) \<noteq> 1" by simp
  with assms(1) show ?thesis
    unfolding t by (simp add: loop_body_wide cong: sum.case_cong)
qed

text \<open>
  Claim C2, as the code has it. When a table with the course-detail titles yields a
  non-empty course list, a group of the current type is appended, \<open>min_points\<close> and
  \<open>min_courses\<close> are reset to \<open>None\<close>, \<open>current_type\<close> is cleared and \<open>previous_type\<close>
  becomes the type just used; \<open>max_courses\<close> is not reset, it keeps its value.
\<close>

theorem group_emitted_resets:
  assumes "rows table = titles # data" "is_course_details titles"
    and "parse_course_details table = Inr temp_courses" "temp_courses \<noteq> []"
    and "loop_body tid table s = Inr s'"
  shows "min_points s' = None \<and> min_courses s' = None \<and> current_type s' = None
    \<and> previous_type s' = current_type s \<and> max_courses s' = max_courses s
    \<and> (\<exists>g. groups s' = groups s @ [g] \<and> Some (group_course_type g) = current_type s)"
proof -
  from assms(5) obtain s1 where s1: "track_table tid table s = Inr s1"
    and d: "details_table tid table titles (strip (py_str (hd titles))) s1 = Inr s'"
    by (auto simp: loop_body_details [OF assms(1,2,3)] split: sum.splits)
  from details_table_emits [OF assms(2,3,4) d] track_table_keeps [OF s1]
  show ?thesis by auto
qed

lemma example_details_no_summary:
  "\<not> list_ex (contains TOTAL_POINTS_IN_HUG_HEB) (label_strs (columns example_details))"
  by (simp add: example_details_def TOTAL_POINTS_IN_HUG_HEB_def str_nat.simps upt_rec)

lemma example_details_rows:
  "rows example_details = hd (rows example_details) # tl (rows example_details)"
  by (simp add: example_details_def)

lemma example_courses_nonempty: "example_courses \<noteq> []"
  by (simp add: example_courses_def)

lemma loop_body_example_details:
  assumes "current_year s = Some year" "year \<noteq> 0" "current_type s = Some ty"
  shows "loop_body tid example_details s =
     Inr (s\<lparr>courses := courses s @ example_courses,
             groups := groups s @
               [\<lparr>group_track = tid, group_course_type = ty,
                 group_courses = map Course_id example_courses, group_year = year,
                 group_index_in_track_year = index_in_track_year s,
                 required_course_count = min_courses s, required_points = min_points s\<rparr>],
             previous_type := Some ty, min_courses := None, min_points := None,
             current_type := None\<rparr>)"
  using assms
  by (simp add: loop_body_details [OF example_details_rows example_details_titles(1)
        example_details_courses]
      track_table_no_summary [OF example_details_no_summary] details_table_def
      example_details_titles(1) example_details_courses example_courses_nonempty)

theorem group_emitted_resets_witness:
  "map_sum id (\<lambda>s. (min_points s, min_courses s, current_type s, previous_type s, max_courses s,
       length (groups s)))
     (loop_body 7 example_details ready) =
   Inr (None, None, None, Some CourseType_MUST, Some 1, 1)"
proof -
  have y: "current_year ready = Some 1" "current_type ready = Some CourseType_MUST"
    "max_courses ready = Some 1" "groups ready = []"
    by (simp_all add: ready_def initial_def)
  obtain s' where s': "loop_body 7 example_details ready = Inr s'"
    using loop_body_example_details [OF y(1) _ y(2)] by simp
  from group_emitted_resets [OF example_details_rows example_details_titles(1)
      example_details_courses example_courses_nonempty s']
  show ?thesis
    by (auto simp: s' y)
qed

lemma one_cell_table_at_most_one:
  assumes "at_most_one_text t"
  shows "one_cell_table t s = Some (Inr (s\<lparr>max_courses := Some 1\<rparr>))"
  using assms unfolding one_cell_table_def at_most_one_text_def
  by (auto simp del: set_map)

lemma loop_body_at_most_one_marker:
  assumes "at_most_one_marker table"
  shows "loop_body tid table s = Inr (s\<lparr>max_courses := Some 1\<rparr>)"
proof -
  from assms obtain c cs data where t: "shape table = (1, 1)" "rows table = (c # cs) # data"
    and a: "at_most_one_text (strip (py_str c))"
    by (auto simp: at_most_one_marker_def marker_text_def split: if_splits list.splits
        option.splits)
  from t show ?thesis
    by (simp add: loop_body_def Let_def one_cell_table_at_most_one [OF a])
qed

theorem max_courses_not_reset:
  "scan 7 [one_cell ONE_AT_MOST, one_cell YEAR_1, one_cell TYPE_MUST, example_details] initial =
     Inr (initial\<lparr>current_year := Some 1, max_courses := Some 1, courses := example_courses,
            groups := [example_group], previous_type := Some CourseType_MUST\<rparr>)"
  by (simp add: loop_body_at_most_one_marker [OF one_at_most_marker]
      loop_body_year_marker [OF year_marker_one_cell(1)] type_must_marker
      loop_body_example_details initial_def example_group_def example_courses_def Course_id_def)

subsection \<open>The course list and the groups\<close>

lemma details_of_narrow:
  assumes "ncols (columns table) = 1"
  shows "details_of table = []"
proof (cases "rows table")
  case Nil
  then show ?thesis by (simp add: details_of_def)
next
  case (Cons titles data)
  show ?thesis
  proof (cases "is_course_details titles")
    case True
    from is_course_details_length [OF True] assms
    have "\<And>cs. parse_course_details table \<noteq> Inr cs"
      using parse_course_details_ncols [OF _ Cons] by fastforce
    with Cons True show ?thesis
      by (auto simp: details_of_def split: sum.splits)
  next
    case False
    with Cons show ?thesis by (simp add: details_of_def)
  qed
qed

lemma one_cell_table_keeps_lists:
  assumes "one_cell_table t s = Some (Inr s')"
  shows "courses s' = courses s \<and> groups s' = groups s"
  using assms unfolding one_cell_table_def
  by (auto simp del: set_map split: if_splits option.splits sum.splits)

lemma details_table_lists:
  assumes "details_table tid table titles t s = Inr s'" "rows table = titles # data"
  shows "courses s' = courses s @ details_of table \<and>
     map group_courses (groups s') = map group_courses (groups s) @
       (if details_of table = [] then [] else [map Course_id (details_of table)])"
  using assms
  by (auto simp: details_table_def details_of_def Let_def split: option.splits if_splits
      sum.splits)

lemma loop_body_lists:
  assumes "loop_body tid table s = Inr s'"
  shows "courses s' = courses s @ details_of table \<and>
     map group_courses (groups s') = map group_courses (groups s) @
       (if details_of table = [] then [] else [map Course_id (details_of table)])"
proof -
  from assms obtain c cs data where r: "rows table = (c # cs) # data"
    by (auto simp: loop_body_def split: list.splits)
  let ?tx = "strip (py_str c)"
  have rest: ?thesis
    if "(case track_table tid table s of Inl e \<Rightarrow> Inl e
         | Inr s1 \<Rightarrow> details_table tid table (c # cs) ?tx s1) = Inr s'"
  proof -
    from that obtain s1 where s1: "track_table tid table s = Inr s1"
      and d: "details_table tid table (c # cs) ?tx s1 = Inr s'"
      by (auto split: sum.splits)
    from details_table_lists [OF d r] track_table_keeps [OF s1] show ?thesis by simp
  qed
  show ?thesis
  proof (cases "shape table = (1, 1)")
    case True
    show ?thesis
    proof (cases "one_cell_table ?tx s")
      case None
      with assms r True rest show ?thesis
        by (simp add: loop_body_def Let_def)
    next
      case (Some res)
      with assms r True have "one_cell_table ?tx s = Some (Inr s')"
        by (simp add: loop_body_def Let_def)
      from one_cell_table_keeps_lists [OF this] details_of_narrow [of table] True
      show ?thesis by (simp add: shape_def)
    qed
  next
    case False
    with assms r rest show ?thesis
      by (simp add: loop_body_def Let_def)
  qed
qed

lemma scan_lists:
  assumes "scan tid df_list s = Inr s'"
  shows "courses s' = courses s @ concat (map details_of df_list) \<and>
     map group_courses (groups s') = map group_courses (groups s) @
       map (map Course_id) (filter (\<lambda>cs. cs \<noteq> []) (map details_of df_list))"
  using assms
proof (induction df_list arbitrary: s)
  case Nil
  then show ?case by simp
next
  case (Cons table df_list)
  from Cons.prems obtain s1 where b: "loop_body tid table s = Inr s1"
    and r: "scan tid df_list s1 = Inr s'"
    by (auto split: sum.splits)
  from loop_body_lists [OF b] Cons.IH [OF r] show ?case
    by simp
qed

text \<open>
  Claim C10. When \<open>parse_moon\<close> returns, the course list is the concatenation, in the
  order of the document, of the course lists extracted from the course-detail tables, and
  the groups carry, in order, the identifiers of the courses of the tables that yielded
  any: the groups cut the course list into consecutive blocks, and every identifier in a
  group is that of a returned course.
\<close>

theorem courses_and_groups_of_tables:
  assumes "parse_moon df_list tid = Inr (t, cs, gs)"
  shows "cs = concat (map details_of df_list)
    \<and> map group_courses gs =
        map (map Course_id) (filter (\<lambda>l. l \<noteq> []) (map details_of df_list))
    \<and> concat (map group_courses gs) = map Course_id cs
    \<and> (\<forall>g \<in> set gs. set (group_courses g) \<subseteq> Course_id ` set cs)"
proof -
  from assms obtain s where s: "scan tid df_list initial = Inr s"
    and c: "cs = courses s" and g: "gs = groups s"
    by (auto simp: parse_moon_def split: sum.splits)
  from scan_lists [OF s] have a: "cs = concat (map details_of df_list)"
    and b: "map group_courses gs =
        map (map Course_id) (filter (\<lambda>l. l \<noteq> []) (map details_of df_list))"
    by (simp_all add: c g initial_def)
  have "concat (map (map Course_id) (filter (\<lambda>l. l \<noteq> []) xs)) = map Course_id (concat xs)" for xs
    by (induction xs) auto
  with a b have d: "concat (map group_courses gs) = map Course_id cs"
    by (simp del: map_map)
  have "set (group_courses g) \<subseteq> Course_id ` set cs" if "g \<in> set gs" for g
  proof -
    from that have "set (group_courses g) \<subseteq> set (concat (map group_courses gs))"
      by auto
    with d show ?thesis by simp
  qed
  with a b d show ?thesis by blast
qed

lemma example_document_result:
  "parse_moon example_document 7 = Inr (None, example_courses, [example_group])"
  by (simp add: parse_moon_def example_document_def loop_body_year_marker [OF year_marker_one_cell(1)]
      type_must_marker loop_body_example_details initial_def example_group_def
      example_courses_def Course_id_def)

theorem courses_and_groups_of_tables_witness:
  "example_courses = concat (map details_of example_document)
    \<and> map group_courses [example_group] =
        map (map Course_id) (filter (\<lambda>l. l \<noteq> []) (map details_of example_document))
    \<and> concat (map group_courses [example_group]) = map Course_id example_courses
    \<and> set (group_courses example_group) \<subseteq> Course_id ` set example_courses"
proof -
  note r = courses_and_groups_of_tables [OF example_document_result]
  from r have "set (group_courses example_group) \<subseteq> Course_id ` set example_courses"
    by (elim conjE) simp
  with r show ?thesis by blast
qed

subsection \<open>Tables of one cell that are not recognised\<close>

lemma one_cell_details_false:
  "\<not> is_course_details [c]"
  using is_course_details_length [of "[c]"] by auto

lemma one_cell_table_None:
  "one_cell_table t s = None \<longleftrightarrow> \<not> recognised t"
  unfolding one_cell_table_def recognised_def
  by (auto simp del: set_map split: option.splits)

text \<open>
  Claim C6, as the code has it. A table of one cell whose text is not recognised, and
  none of whose column labels contains "total points in the department", changes nothing
  and raises nothing, unless the text contains "at most" while \<open>max_courses\<close> is unset:
  then the NotImplementedError is raised.
\<close>

theorem unrecognised_one_cell_table:
  assumes "marker_text table = Some t" "rectangular table" "\<not> recognised t"
    and "\<not> list_ex (contains TOTAL_POINTS_IN_HUG_HEB) (label_strs (columns table))"
  shows "loop_body tid table s =
     (if contains AT_MOST_HEB t \<and> \<not> truthy (max_courses s) then Inl NotImplementedError
      else Inr s)"
proof -
  from assms(1) obtain c cs data where sh: "shape table = (1, 1)"
    and r: "rows table = (c # cs) # data" and t: "t = strip (py_str c)"
    by (auto simp: marker_text_def split: if_splits list.splits)
  from sh r assms(2) have "cs = []"
    by (simp add: shape_def rectangular_def)
  with r have r1: "rows table = [c] # data" by simp
  have d: "details_table tid table [c] t s =
     (if contains AT_MOST_HEB t \<and> \<not> truthy (max_courses s) then Inl NotImplementedError
      else Inr s)"
    by (simp add: details_table_def one_cell_details_false)
  from assms(3) have "one_cell_table t s = None"
    by (simp add: one_cell_table_None)
  then show ?thesis
    by (simp add: loop_body_def r1 sh Let_def t [symmetric] d
        track_table_no_summary [OF assms(4)])
qed

lemma foo_unrecognised: "\<not> recognised (asc ''foo'')" "\<not> contains AT_MOST_HEB (asc ''foo'')"
  by (simp_all add: recognised_def lexicon_defs pattern_defs asc_def AT_MOST_HEB_def)

lemma four_at_most_unrecognised:
  "\<not> recognised (asc ''4 '' @ AT_MOST_HEB)" "contains AT_MOST_HEB (asc ''4 '' @ AT_MOST_HEB)"
  by (simp_all add: recognised_def lexicon_defs pattern_defs asc_def AT_MOST_HEB_def number_defs
      text_defs)

lemma one_cell_plain:
  "rectangular (one_cell t)"
  "\<not> list_ex (contains TOTAL_POINTS_IN_HUG_HEB) (label_strs (columns (one_cell t)))"
  by (simp_all add: rectangular_def one_cell_def TOTAL_POINTS_IN_HUG_HEB_def str_nat.simps)

theorem unrecognised_one_cell_table_witness:
  "loop_body 7 (one_cell (asc ''foo'')) initial = Inr initial
   \<and> loop_body 7 (one_cell (asc ''4 '' @ AT_MOST_HEB)) initial = Inl NotImplementedError"
proof -
  have m: "marker_text (one_cell (asc ''foo'')) = Some (asc ''foo'')"
    by (simp add: marker_text_one_cell text_defs)
  have m4: "marker_text (one_cell (asc ''4 '' @ AT_MOST_HEB)) = Some (asc ''4 '' @ AT_MOST_HEB)"
    by (simp add: marker_text_one_cell text_defs AT_MOST_HEB_def)
  have u: "\<not> truthy (max_courses initial)"
    by (simp add: truthy_def initial_def)
  from unrecognised_one_cell_table [OF m one_cell_plain(1) foo_unrecognised(1) one_cell_plain(2),
      of 7 initial]
    unrecognised_one_cell_table [OF m4 one_cell_plain(1) four_at_most_unrecognised(1)
      one_cell_plain(2), of 7 initial]
  show ?thesis
    by (simp add: foo_unrecognised(2) four_at_most_unrecognised(2) u)
qed

lemma headed_cell_track:
  "parse_track headed_cell 7 = Inr (empty_track, [could_not_parse (asc ''foo'') (CStr (asc ''foo''))])"
  by (simp add: parse_track_def headed_cell_def empty_track_def no_totals_def track_row_def
      row_cells_def TOTAL_POINTS_HEB_def TOTAL_POINTS_IN_HUG_HEB_def TOTAL_HEB_def asc_def
      match_points_def pattern_defs number_defs text_defs)

theorem headed_cell_sets_track:
  "marker_text headed_cell = Some (asc ''foo'') \<and> \<not> recognised (asc ''foo'')
   \<and> \<not> contains AT_MOST_HEB (asc ''foo'')
   \<and> loop_body 7 headed_cell initial =
       Inr (initial\<lparr>track := Some empty_track,
                    stdout := [could_not_parse (asc ''foo'') (CStr (asc ''foo''))]\<rparr>)"
proof -
  have m: "marker_text headed_cell = Some (asc ''foo'')"
    by (simp add: marker_text_def headed_cell_def shape_def text_defs)
  have r: "rows headed_cell = [[CStr (asc ''foo'')]]" "shape headed_cell = (1, 1)"
    by (simp_all add: headed_cell_def shape_def)
  have s: "strip (asc ''foo'') = asc ''foo''"
    by (simp add: text_defs)
  have l: "list_ex (contains TOTAL_POINTS_IN_HUG_HEB) (label_strs (columns headed_cell))"
    by (simp add: headed_cell_def TOTAL_POINTS_IN_HUG_HEB_def)
  have n: "one_cell_table (asc ''foo'') initial = None"
    by (simp add: one_cell_table_None foo_unrecognised)
  have t: "track_table 7 headed_cell initial =
      Inr (initial\<lparr>track := Some empty_track,
                   stdout := [could_not_parse (asc ''foo'') (CStr (asc ''foo''))]\<rparr>)"
    by (simp add: track_table_def l headed_cell_track) (simp add: initial_def)
  have "loop_body 7 headed_cell initial =
       Inr (initial\<lparr>track := Some empty_track,
                    stdout := [could_not_parse (asc ''foo'') (CStr (asc ''foo''))]\<rparr>)"
    by (simp add: loop_body_def r s n t details_table_def one_cell_details_false
        foo_unrecognised Let_def)
  with m foo_unrecognised show ?thesis by simp
qed

subsection \<open>At-most-one markers\<close>

lemma same_but_max_refl: "same_but_max s s"
  by (auto simp: same_but_max_def intro: exI [of _ "max_courses s"])

lemma one_cell_table_max:
  "one_cell_table t (s\<lparr>max_courses := m\<rparr>) =
     map_option (map_sum id (\<lambda>s'. s'\<lparr>max_courses := (if at_most_one_text t then Some 1 else m)\<rparr>))
       (one_cell_table t s)"
proof (cases "t \<in> set IGNORABLE_TITLES \<or> contains TOTAL_HEB t")
  case True
  then show ?thesis
    by (auto simp: one_cell_table_def at_most_one_text_def simp del: set_map)
next
  case ign: False
  show ?thesis
  proof (cases "t \<in> set (map fst YEAR_STRINGS)")
    case True
    with ign show ?thesis
      by (simp add: one_cell_table_def at_most_one_text_def del: set_map split: sum.splits)
  next
    case yr: False
    show ?thesis
    proof (cases "t \<in> set (map fst COURSE_TYPE_STRINGS)")
      case True
      with ign yr show ?thesis
        by (simp add: one_cell_table_def at_most_one_text_def del: set_map split: sum.splits)
    next
      case ty: False
      show ?thesis
      proof (cases "re_search MIN_POINTS_PATTERN t")
        case (Some g)
        with ign yr ty show ?thesis
          by (simp add: one_cell_table_def at_most_one_text_def del: set_map split: sum.splits)
      next
        case mp: None
        show ?thesis
        proof (cases "re_search MIN_COURSES_PATTERN t")
          case (Some g)
          with ign yr ty mp show ?thesis
            by (simp add: one_cell_table_def at_most_one_text_def del: set_map split: sum.splits)
        next
          case mc: None
          show ?thesis
          proof (cases "re_search MIN_COURSES_ONE_PATTERN t")
            case (Some g)
            with ign yr ty mp mc show ?thesis
              by (simp add: one_cell_table_def at_most_one_text_def del: set_map)
          next
            case mo: None
            with ign yr ty mp mc show ?thesis
              by (cases "re_search MAX_COURSES_ONE_PATTERN t")
                (simp_all add: one_cell_table_def at_most_one_text_def del: set_map)
          qed
        qed
      qed
    qed
  qed
qed

lemma track_table_max:
  "track_table tid table (s\<lparr>max_courses := m\<rparr>) =
     map_sum id (\<lambda>s'. s'\<lparr>max_courses := m\<rparr>) (track_table tid table s)"
  unfolding track_table_def
  by (simp split: sum.splits prod.splits)

lemma details_table_max:
  assumes "details_table tid table titles t s = Inr s'" "truthy (max_courses s) \<longrightarrow> truthy m"
  shows "details_table tid table titles t (s\<lparr>max_courses := m\<rparr>) = Inr (s'\<lparr>max_courses := m\<rparr>)"
proof (cases "is_course_details titles")
  case True
  with assms(1) show ?thesis
    by (auto simp: details_table_def Let_def split: option.splits if_splits sum.splits)
next
  case False
  with assms show ?thesis
    by (auto simp: details_table_def split: if_splits)
qed


lemma one_cell_table_keeps_max:
  assumes "one_cell_table t s = Some (Inr s')" "\<not> at_most_one_text t"
  shows "max_courses s' = max_courses s"
proof -
  have "one_cell_table t (s\<lparr>max_courses := max_courses s\<rparr>) =
      Some (Inr (s'\<lparr>max_courses := max_courses s\<rparr>))"
    by (simp only: one_cell_table_max assms) simp
  with assms(1) have "s' = s'\<lparr>max_courses := max_courses s\<rparr>"
    by simp
  then have "max_courses s' = max_courses (s'\<lparr>max_courses := max_courses s\<rparr>)"
    by simp
  then show ?thesis by simp
qed

lemma details_table_keeps_max:
  assumes "details_table tid table titles t s = Inr s'"
  shows "max_courses s' = max_courses s"
  using assms
  by (auto simp: details_table_def Let_def split: if_splits option.splits sum.splits)

lemma loop_body_sim:
  assumes "loop_body tid table s1 = Inr s1'" "same_but_max s1 s2"
  shows "\<exists>s2'. loop_body tid table s2 = Inr s2' \<and> same_but_max s1' s2'"
proof -
  from assms(2) obtain m where m: "s2 = s1\<lparr>max_courses := m\<rparr>"
    and tr: "truthy (max_courses s1) \<longrightarrow> truthy m"
    by (auto simp: same_but_max_def)
  from assms(1) obtain c cs data where r: "rows table = (c # cs) # data"
    by (auto simp: loop_body_def split: list.splits)
  let ?tx = "strip (py_str c)"
  let ?rest = "\<lambda>s. case track_table tid table s of Inl e \<Rightarrow> Inl e
         | Inr s1 \<Rightarrow> details_table tid table (c # cs) ?tx s1"
  have rest: "?rest s2 = Inr (s1'\<lparr>max_courses := m\<rparr>) \<and> same_but_max s1' (s1'\<lparr>max_courses := m\<rparr>)"
    if "?rest s1 = Inr s1'"
  proof -
    from that obtain a1 where a1: "track_table tid table s1 = Inr a1"
      and d1: "details_table tid table (c # cs) ?tx a1 = Inr s1'"
      by (auto split: sum.splits)
    from track_table_keeps(5) [OF a1] tr have tr1: "truthy (max_courses a1) \<longrightarrow> truthy m"
      by simp
    from details_table_keeps_max [OF d1] track_table_keeps(5) [OF a1] tr
    have "same_but_max s1' (s1'\<lparr>max_courses := m\<rparr>)"
      by (auto simp: same_but_max_def)
    with details_table_max [OF d1 tr1] a1 show ?thesis
      by (simp add: m track_table_max)
  qed
  show ?thesis
  proof (cases "shape table = (1, 1)")
    case True
    show ?thesis
    proof (cases "one_cell_table ?tx s1")
      case None
      with assms(1) r True have "?rest s1 = Inr s1'"
        by (simp add: loop_body_def Let_def)
      from rest [OF this] None r True show ?thesis
        by (auto simp: loop_body_def Let_def m one_cell_table_max)
    next
      case (Some res)
      with assms(1) r True have o: "one_cell_table ?tx s1 = Some (Inr s1')"
        by (simp add: loop_body_def Let_def)
      let ?m = "if at_most_one_text ?tx then Some 1 else m"
      have "same_but_max s1' (s1'\<lparr>max_courses := ?m\<rparr>)"
        using one_cell_table_keeps_max [OF o] tr
        by (auto simp: same_but_max_def truthy_def)
      moreover have "loop_body tid table s2 = Inr (s1'\<lparr>max_courses := ?m\<rparr>)"
        using r True o by (simp add: loop_body_def Let_def m one_cell_table_max)
      ultimately show ?thesis by blast
    qed
  next
    case False
    with assms(1) r have "?rest s1 = Inr s1'"
      by (simp add: loop_body_def Let_def)
    from rest [OF this] r False show ?thesis
      by (auto simp: loop_body_def Let_def)
  qed
qed

lemma marker_sim:
  assumes "same_but_max s1 s2"
  shows "same_but_max s1 (s2\<lparr>max_courses := Some 1\<rparr>)"
  using assms by (auto simp: same_but_max_def truthy_def)

lemma scan_sim:
  assumes "extra_markers d1 d2" "scan tid d1 s1 = Inr s1'" "same_but_max s1 s2"
  shows "\<exists>s2'. scan tid d2 s2 = Inr s2' \<and> same_but_max s1' s2'"
  using assms
proof (induction arbitrary: s1 s2 rule: extra_markers.induct)
  case same_end
  then show ?case by simp
next
  case (same_table d1 d2 table)
  from same_table.prems(1) obtain a1 where a1: "loop_body tid table s1 = Inr a1"
    and r: "scan tid d1 a1 = Inr s1'"
    by (auto split: sum.splits)
  from loop_body_sim [OF a1 same_table.prems(2)] obtain a2
    where a2: "loop_body tid table s2 = Inr a2" and s: "same_but_max a1 a2"
    by blast
  from same_table.IH [OF r s] a2 show ?case by simp
next
  case (added_marker table d1 d2)
  from added_marker.IH [OF added_marker.prems(1) marker_sim [OF added_marker.prems(2)]]
  show ?case
    by (simp add: loop_body_at_most_one_marker [OF added_marker.hyps(1)])
qed

text \<open>
  Claim C8. If a document differs from another only by additional at-most-one markers,
  then whenever \<open>parse_moon\<close> returns for the document without them it returns the very
  same track, course list and group list for the document with them; hence the two
  results are equal whenever both runs return. The markers only set \<open>max_courses\<close>,
  which no output holds and which is read only to decide whether "at most" in a later
  table raises the NotImplementedError.
\<close>

theorem at_most_one_markers_unobservable:
  assumes "extra_markers d1 d2" "parse_moon d1 tid = Inr r1"
  shows "parse_moon d2 tid = Inr r1"
proof -
  from assms(2) obtain s1 where s1: "scan tid d1 initial = Inr s1"
    and r1: "r1 = (map_option (\<lambda>t. t\<lparr>track_groups := groups s1\<rparr>) (track s1), courses s1,
       groups s1)"
    by (auto simp: parse_moon_def split: sum.splits)
  from scan_sim [OF assms(1) s1 same_but_max_refl] obtain s2
    where s2: "scan tid d2 initial = Inr s2" and s: "same_but_max s1 s2"
    by blast
  from s have "track s2 = track s1" "courses s2 = courses s1" "groups s2 = groups s1"
    by (auto simp: same_but_max_def)
  with s2 r1 show ?thesis
    by (simp add: parse_moon_def)
qed

lemma example_extra_markers:
  "extra_markers example_document
     [one_cell ONE_AT_MOST, one_cell YEAR_1, one_cell TYPE_MUST, one_cell ONE_AT_MOST,
      example_details]"
  unfolding example_document_def
  by (intro extra_markers.intros one_at_most_marker)

theorem at_most_one_markers_unobservable_witness:
  "parse_moon
     [one_cell ONE_AT_MOST, one_cell YEAR_1, one_cell TYPE_MUST, one_cell ONE_AT_MOST,
      example_details] 7 =
   Inr (None, example_courses, [example_group])"
  by (rule at_most_one_markers_unobservable [OF example_extra_markers example_document_result])

subsection \<open>The annotation of courses not given this year\<close>

lemma contains_sublist: "contains sub s = sublist sub s"
  by (induction s) (auto simp: sublist_Cons_right)

lemma replace_absent:
  assumes "\<not> contains old s"
  shows "replace old new s = s"
  using assms
proof (induction old new s rule: replace.induct)
  case (1 old new)
  then show ?case by simp
next
  case (2 old new c s)
  then show ?case by auto
qed

lemma replace_shorter:
  assumes "contains old s" "old \<noteq> []"
  shows "length (replace old [] s) < length s"
proof -
  have le: "length (replace old [] s) \<le> length s" for s
  proof (induction old "[] :: pystr" s rule: replace.induct)
    case (1 old)
    then show ?case by simp
  next
    case (2 old c s)
    then show ?case by (auto simp: le_SucI)
  qed
  show ?thesis
    using assms
  proof (induction s)
    case Nil
    then show ?case by simp
  next
    case (Cons c s)
    show ?case
    proof (cases "prefix old (c # s)")
      case True
      with Cons.prems(2) have "replace old [] (c # s) = replace old [] (drop (length old) (c # s))"
        by simp
      also have "length \<dots> \<le> length (drop (length old) (c # s))"
        by (rule le)
      also have "\<dots> < length (c # s)"
        using Cons.prems(2) by (cases old) auto
      finally show ?thesis .
    next
      case False
      with Cons show ?thesis by auto
    qed
  qed
qed


lemma mapM_all2:
  assumes "mapM f xs = Inr ys"
  shows "list_all2 (\<lambda>x y. f x = Inr y) xs ys"
  using assms
  by (induction xs arbitrary: ys) (auto split: sum.splits)

lemma course_of_row_name:
  assumes "course_of_row cols (row, rest) = Inr c"
  shows "\<exists>raw. name_cell cols row = Inr (CStr raw)
    \<and> is_given_this_year c = (\<not> contains NOT_GIVEN_THIS_YEAR raw)
    \<and> name c = replace NOT_GIVEN_THIS_YEAR [] raw"
  using assms
  by (cases rest) (auto simp: Let_def split: sum.splits cell.splits)

lemma convert_column_length:
  assumes "convert_column f key cols data = Inr vs"
  shows "length vs = length data"
  using assms
  by (auto simp: convert_column_def split: if_splits dest: mapM_length)

lemma semester_column_length:
  assumes "semester_column cols data = Inr vs"
  shows "length vs = length data"
  using assms
  by (auto simp: semester_column_def split: if_splits dest: convert_column_length)

text \<open>
  Claim C7. For every data row of a course-detail table the course produced has
  \<open>is_given_this_year\<close> false exactly when the raw name cell contains the annotation
  "(not taught this year)"; its name is the raw name with every occurrence of the
  annotation removed, which is the raw name itself when the annotation is absent and a
  shorter string when it is present.
\<close>

theorem not_given_this_year:
  assumes "parse_course_details df = Inr cs" "rows df = titles # data"
    and "header_titles titles = Inr cols" "i < length data"
  shows "length cs = length data
    \<and> (\<exists>raw. name_cell cols (data ! i) = Inr (CStr raw)
         \<and> (is_given_this_year (cs ! i) = False \<longleftrightarrow> contains NOT_GIVEN_THIS_YEAR raw)
         \<and> name (cs ! i) = replace NOT_GIVEN_THIS_YEAR [] raw
         \<and> (\<not> contains NOT_GIVEN_THIS_YEAR raw \<longrightarrow> name (cs ! i) = raw)
         \<and> (contains NOT_GIVEN_THIS_YEAR raw \<longrightarrow> length (name (cs ! i)) < length raw))"
proof -
  from assms(1,2,3) obtain sems ids hugs pts
    where sems: "semester_column cols data = Inr sems"
      and ids: "convert_column to_int COURSE_ID cols data = Inr ids"
      and hugs: "convert_column to_int HUG_ID cols data = Inr hugs"
      and pts: "convert_column to_float POINTS cols data = Inr pts"
      and m: "mapM (course_of_row cols) (zip data (zip sems (zip ids (zip hugs pts)))) = Inr cs"
    by (auto simp: parse_course_details_def split: sum.splits if_splits)
  let ?z = "zip data (zip sems (zip ids (zip hugs pts)))"
  have lz: "length ?z = length data"
    using semester_column_length [OF sems] convert_column_length [OF ids]
      convert_column_length [OF hugs] convert_column_length [OF pts]
    by simp
  from mapM_length [OF m] lz have l: "length cs = length data" by simp
  from assms(4) lz have iz: "i < length ?z" by simp
  from mapM_nth [OF m iz] have "course_of_row cols (?z ! i) = Inr (cs ! i)" .
  moreover from iz have "i < length data" "i < length (zip sems (zip ids (zip hugs pts)))"
    by simp_all
  then have "?z ! i = (data ! i, snd (?z ! i))"
    by (simp only: nth_zip snd_conv)
  ultimately have "course_of_row cols (data ! i, snd (?z ! i)) = Inr (cs ! i)"
    by simp
  from course_of_row_name [OF this] obtain raw
    where raw: "name_cell cols (data ! i) = Inr (CStr raw)"
      "is_given_this_year (cs ! i) = (\<not> contains NOT_GIVEN_THIS_YEAR raw)"
      "name (cs ! i) = replace NOT_GIVEN_THIS_YEAR [] raw"
    by blast
  have ne: "NOT_GIVEN_THIS_YEAR \<noteq> []"
    by (simp add: NOT_GIVEN_THIS_YEAR_def)
  from raw l replace_absent [of NOT_GIVEN_THIS_YEAR raw "[]"]
    replace_shorter [of NOT_GIVEN_THIS_YEAR raw, OF _ ne]
  show ?thesis by auto
qed


lemma example_name_cells:
  "name_cell [COURSE_ID, COURSE_NAME, POINTS, SEMESTER, HUG_ID] (tl (rows example_details) ! 0) =
     Inr (CStr (asc ''X '' @ NOT_GIVEN_THIS_YEAR))"
  "name_cell [COURSE_ID, COURSE_NAME, POINTS, SEMESTER, HUG_ID] (tl (rows example_details) ! Suc 0) =
     Inr (CStr (asc ''Y''))"
  "length (tl (rows example_details)) = 2"
  by (simp_all add: name_cell_def example_details_def title_defs asc_def)

lemma example_annotation:
  "contains NOT_GIVEN_THIS_YEAR (asc ''X '' @ NOT_GIVEN_THIS_YEAR)"
  "\<not> contains NOT_GIVEN_THIS_YEAR (asc ''Y'')"
  by (simp_all add: NOT_GIVEN_THIS_YEAR_def asc_def)

theorem not_given_this_year_witness:
  "length example_courses = length (tl (rows example_details))
   \<and> is_given_this_year (example_courses ! 0) = False
   \<and> name (example_courses ! 0) = replace NOT_GIVEN_THIS_YEAR [] (asc ''X '' @ NOT_GIVEN_THIS_YEAR)
   \<and> length (name (example_courses ! 0)) < length (asc ''X '' @ NOT_GIVEN_THIS_YEAR)
   \<and> is_given_this_year (example_courses ! 1) = True
   \<and> name (example_courses ! 1) = asc ''Y''"
proof -
  note main = not_given_this_year [OF example_details_courses example_details_rows example_header]
  have "0 < length (tl (rows example_details))" "1 < length (tl (rows example_details))"
    unfolding example_name_cells(3) by simp_all
  from main [OF this(1)] main [OF this(2)] show ?thesis
    by (auto simp: example_name_cells example_annotation simp del: length_tl)
qed

subsection \<open>Digits, and the texts \<open>float\<close> accepts\<close>

lemma is_digit_iff:
  "is_digit c \<longleftrightarrow> (\<exists>z \<in> set DIGIT_ZEROS. z \<le> c \<and> c < z + 10)"
  by (auto simp: is_digit_def digit_zero_def find_None_iff)

lemma digit_zeros_bounds:
  "\<forall>z \<in> set DIGIT_ZEROS.
     z = 48 \<or> (1632 \<le> z \<and> z \<le> 4240) \<or> (6112 \<le> z \<and> z \<le> 7248) \<or> 42528 \<le> z"
  by (simp add: DIGIT_ZEROS_def)

lemma is_digit_bounds:
  assumes "is_digit c"
  shows "(48 \<le> c \<and> c \<le> 57) \<or> (1632 \<le> c \<and> c \<le> 4249) \<or> (6112 \<le> c \<and> c \<le> 7257)
    \<or> 42528 \<le> c"
proof -
  from assms obtain z where z: "z \<in> set DIGIT_ZEROS" "z \<le> c" "c < z + 10"
    by (auto simp: is_digit_iff)
  from digit_zeros_bounds z(1)
  have "z = 48 \<or> (1632 \<le> z \<and> z \<le> 4240) \<or> (6112 \<le> z \<and> z \<le> 7248) \<or> 42528 \<le> z"
    by blast
  with z(2,3) show ?thesis by arith
qed

lemma is_digit_not_space:
  assumes "is_digit c"
  shows "\<not> is_space c"
  using is_digit_bounds [OF assms] by (auto simp: is_space_def WHITESPACE_def)

lemma is_digit_plain:
  assumes "is_digit c"
  shows "c \<noteq> dot" "c \<noteq> minus_sign" "c \<noteq> plus_sign" "c \<noteq> 101" "c \<noteq> 69" "c \<noteq> underscore"
    "c \<noteq> 105" "c \<noteq> 110" "lower c = c"
  using is_digit_bounds [OF assms] by (auto simp: lower_def)

lemma digitpart_digits:
  assumes "list_all is_digit ds" "ds \<noteq> [] \<or> prev"
  shows "\<exists>v. digitpart ds prev (v0, n0) = Some (v, n0 + length ds)"
  using assms
proof (induction ds arbitrary: prev v0 n0)
  case Nil
  then show ?case by simp
next
  case (Cons c ds)
  from Cons.prems(1) have c: "is_digit c" and ds: "list_all is_digit ds" by simp_all
  from Cons.IH [OF ds, of True "10 * v0 + digit_value c" "Suc n0"] c show ?case
    by simp
qed

lemma unsigned_digits:
  assumes "all_digits ds"
  shows "\<exists>v. unsigned ds = Some (v, length ds)"
  using digitpart_digits [of ds False 0 0] assms
  by (auto simp: unsigned_def all_digits_def)


lemma number_strip_plain:
  assumes "x \<noteq> []" "\<not> is_space (hd x)" "\<not> is_space (last x)"
  shows "number_strip x = x"
proof -
  from assms(1,2) have a: "dropWhile is_number_space x = x"
    by (cases x) (simp_all add: is_number_space_def)
  from assms(1,3) have "dropWhile is_number_space (rev x) = rev x"
    by (cases x rule: rev_cases) (simp_all add: is_number_space_def)
  with a show ?thesis by (simp add: number_strip_def)
qed

lemma split_at_none:
  assumes "\<forall>c \<in> set x. \<not> P c"
  shows "split_at P x = (x, None)"
proof -
  from assms have a: "dropWhile (\<lambda>c. \<not> P c) x = []" by simp
  show ?thesis unfolding split_at_def a by simp
qed

lemma split_at_first:
  assumes "\<forall>c \<in> set a. \<not> P c" "P d"
  shows "split_at P (a @ d # b) = (a, Some b)"
proof -
  from assms have "dropWhile (\<lambda>c. \<not> P c) (a @ d # b) = d # b"
    by (simp add: dropWhile_append2)
  moreover from assms have "takeWhile (\<lambda>c. \<not> P c) (a @ d # b) = a"
    by (simp add: takeWhile_append2)
  ultimately show ?thesis unfolding split_at_def by simp
qed

lemma all_digits_set:
  assumes "all_digits ds"
  shows "ds \<noteq> []" "\<forall>c \<in> set ds. is_digit c" "is_digit (hd ds)" "is_digit (last ds)"
  using assms by (auto simp: all_digits_def list_all_iff)

lemma mantissa_decimal:
  assumes "decimal x"
  shows "\<exists>v n. mantissa x = Some (v, n)"
proof -
  from assms consider "all_digits x"
    | a b where "all_digits a" "all_digits b" "x = a @ dot # b"
    by (auto simp: decimal_def)
  then show ?thesis
  proof cases
    case 1
    from all_digits_set(2) [OF 1] have "\<forall>c \<in> set x. \<not> c = dot"
      using is_digit_plain(1) by blast
    from split_at_none [of x "\<lambda>c. c = dot", OF this] unsigned_digits [OF 1]
    show ?thesis by (auto simp: mantissa_def)
  next
    case 2
    from all_digits_set(2) [OF 2(1)] have "\<forall>c \<in> set a. \<not> c = dot"
      using is_digit_plain(1) by blast
    then have "split_at (\<lambda>c. c = dot) (a @ dot # b) = (a, Some b)"
      by (rule split_at_first) simp
    with unsigned_digits [OF 2(1)] unsigned_digits [OF 2(2)] all_digits_set(1) [OF 2(1)]
      all_digits_set(1) [OF 2(2)] 2(3)
    show ?thesis by (auto simp: mantissa_def)
  qed
qed

lemma decimal_chars:
  assumes "decimal x"
  shows "x \<noteq> []" "is_digit (hd x)" "is_digit (last x)" "\<forall>c \<in> set x. is_digit c \<or> c = dot"
  using assms all_digits_set
  by (auto simp: decimal_def)

lemma float_decimal:
  assumes "decimal x"
  shows "\<exists>p. float_of_str x = Some p"
proof -
  note c = decimal_chars [OF assms]
  from c(1,2,3) have s: "number_strip x = x"
    by (intro number_strip_plain is_digit_not_space)
  from c(1) have h: "hd (map lower x) = hd x"
    using is_digit_plain(9) [OF c(2)] by (simp add: hd_map)
  from is_digit_plain(7,8) [OF c(2)] h
  have k: "map lower x \<noteq> asc ''inf''" "map lower x \<noteq> asc ''infinity''"
    "map lower x \<noteq> asc ''nan''"
    by (auto simp: asc_def)
  have "\<not> (c = 101 \<or> c = 69)" if "c \<in> set x" for c
  proof -
    from c(4) that have "is_digit c \<or> c = dot" by blast
    then show ?thesis
      using is_digit_plain(4,5) [of c] by auto
  qed
  then have "\<forall>c \<in> set x. \<not> (c = 101 \<or> c = 69)" by blast
  from split_at_none [of x "\<lambda>c. c = 101 \<or> c = 69", OF this]
  have e: "split_at (\<lambda>c. c = 101 \<or> c = 69) x = (x, None)" .
  from mantissa_decimal [OF assms] obtain v n where m: "mantissa x = Some (v, n)"
    by blast
  from is_digit_plain(2,3) [OF c(2)] have sg: "hd x \<noteq> minus_sign" "hd x \<noteq> plus_sign"
    by simp_all
  show ?thesis
    by (simp add: float_of_str_def s Let_def sg k e m exponent_def)
qed

subsection \<open>What the groups of \<open>RE_RANGE\<close> and \<open>RE_MIN\<close> capture\<close>

lemma rmatch_groupless:
  assumes "groupless r" "(s', g') \<in> set (rmatch r (s, g))"
  shows "g' = g"
  using assms
proof (induction r arbitrary: s g s' g')
  case (Seq a b)
  from Seq.prems(2) obtain s1 g1 where a: "(s1, g1) \<in> set (rmatch a (s, g))"
    and b: "(s', g') \<in> set (rmatch b (s1, g1))"
    by auto
  from Seq.IH(1) [OF _ a] Seq.IH(2) [OF _ b] Seq.prems(1) show ?case by simp
qed (auto split: if_splits list.splits)

lemma in_cls_Digit: "in_cls Digit = is_digit"
  by (rule ext) simp

lemma rmatch_Plus_Digit:
  assumes "(s', g') \<in> set (rmatch (Plus Digit) (s, g))"
  shows "\<exists>ds. all_digits ds \<and> s = ds @ s'"
proof -
  let ?tw = "takeWhile is_digit s"
  from assms obtain k where k: "1 \<le> k" "k \<le> length ?tw" "s' = drop k s"
    by (auto simp: in_cls_Digit)
  have "take k s = take k ?tw"
    using k(2) by (metis takeWhile_dropWhile_id take_append diff_is_0_eq take_0 append_Nil2)
  then have "set (take k s) \<subseteq> set ?tw"
    by (metis set_take_subset)
  then have d: "list_all is_digit (take k s)"
    by (auto simp: list_all_iff dest: set_takeWhileD)
  from k(1,2) have "k \<le> length s"
    using length_takeWhile_le [of is_digit s] by simp
  with k(1) have "take k s \<noteq> []" by auto
  with d k(3) show ?thesis
    by (intro exI [of _ "take k s"]) (simp add: all_digits_def)
qed


lemma rmatch_Seq_elim:
  assumes "(s', g') \<in> set (rmatch (Seq a b) x)"
  obtains s1 g1 where "(s1, g1) \<in> set (rmatch a x)" "(s', g') \<in> set (rmatch b (s1, g1))"
  using assms by auto

lemma rmatch_Opt_elim:
  assumes "(s', g') \<in> set (rmatch (Opt r) x)"
  shows "(s', g') \<in> set (rmatch r x) \<or> (s', g') = x"
  using assms by auto

lemma rmatch_Alt_elim:
  assumes "(s', g') \<in> set (rmatch (Alt a b) x)"
  shows "(s', g') \<in> set (rmatch a x) \<or> (s', g') \<in> set (rmatch b x)"
  using assms by auto

lemma rmatch_Lit_elim:
  assumes "(s', g') \<in> set (rmatch (Lit l) (s, g))"
  shows "s = l @ s' \<and> g' = g"
  using assms by (auto split: if_splits elim: prefixE)

lemma rmatch_number:
  assumes "(s', g') \<in> set (rmatch (Seq (Plus Digit) (Opt (Seq (Lit [dot]) (Plus Digit)))) (s, g))"
  shows "\<exists>x. decimal x \<and> s = x @ s'"
proof -
  from assms obtain s1 g1 where a: "(s1, g1) \<in> set (rmatch (Plus Digit) (s, g))"
    and b: "(s', g') \<in> set (rmatch (Opt (Seq (Lit [dot]) (Plus Digit))) (s1, g1))"
    by (rule rmatch_Seq_elim)
  from rmatch_Plus_Digit [OF a] obtain ds where ds: "all_digits ds" "s = ds @ s1"
    by blast
  from rmatch_Opt_elim [OF b] show ?thesis
  proof
    assume "(s', g') \<in> set (rmatch (Seq (Lit [dot]) (Plus Digit)) (s1, g1))"
    then obtain t g2 where l: "(t, g2) \<in> set (rmatch (Lit [dot]) (s1, g1))"
      and p: "(s', g') \<in> set (rmatch (Plus Digit) (t, g2))"
      by (rule rmatch_Seq_elim)
    from rmatch_Lit_elim [OF l] have s1: "s1 = dot # t" by simp
    from rmatch_Plus_Digit [OF p] obtain ds2 where ds2: "all_digits ds2" "t = ds2 @ s'"
      by blast
    with ds s1 have "decimal (ds @ dot # ds2)" "s = (ds @ dot # ds2) @ s'"
      by (auto simp: decimal_def)
    then show ?thesis by blast
  next
    assume "(s', g') = (s1, g1)"
    with ds show ?thesis
      by (auto simp: decimal_def)
  qed
qed

lemma rmatch_Group:
  assumes "(s', g') \<in> set (rmatch (Group n r) (s, g))" "groupless r"
  shows "(s', g) \<in> set (rmatch r (s, g)) \<and> g' = (n, take (length s - length s') s) # g"
proof -
  from assms(1) obtain g1 where a: "(s', g1) \<in> set (rmatch r (s, g))"
    and b: "g' = (n, take (length s - length s') s) # g1"
    by auto
  from rmatch_groupless [OF assms(2) a] a b show ?thesis by simp
qed

lemma re_match_SomeD:
  assumes "re_match p s = Some m"
  shows "\<exists>rest. (rest, m) \<in> set (rmatch p (s, []))"
proof (cases "rmatch p (s, [])")
  case Nil
  with assms show ?thesis by (simp add: re_match_def)
next
  case (Cons a list)
  with assms have "a = (fst a, m)"
    by (cases a) (simp add: re_match_def)
  with Cons show ?thesis
    by (metis list.set_intros(1))
qed

lemma RE_RANGE_group:
  assumes "re_match RE_RANGE s = Some m"
  shows "\<exists>x. decimal x \<and> m = [(1, x)]"
proof -
  let ?num = "Seq (Plus Digit) (Opt (Seq (Lit [dot]) (Plus Digit)))"
  let ?tail = "Seq (Lit [minus_sign]) (Opt (Seq (Lit [dot]) (Plus Digit)))"
  from re_match_SomeD [OF assms] obtain rest
    where "(rest, m) \<in> set (rmatch (Seq (Group 1 ?num) ?tail) (s, []))"
    unfolding RE_RANGE_def by blast
  then obtain s1 g1 where a: "(s1, g1) \<in> set (rmatch (Group 1 ?num) (s, []))"
    and b: "(rest, m) \<in> set (rmatch ?tail (s1, g1))"
    by (rule rmatch_Seq_elim)
  have gl: "groupless ?num" "groupless ?tail" by simp_all
  from rmatch_Group [OF a gl(1)] have n: "(s1, []) \<in> set (rmatch ?num (s, []))"
    and g1: "g1 = [(1, take (length s - length s1) s)]"
    by blast+
  from rmatch_number [OF n] obtain x where x: "decimal x" "s = x @ s1"
    by blast
  from rmatch_groupless [OF gl(2) b] have "m = g1" .
  with g1 x show ?thesis by simp
qed

lemma RE_MIN_group:
  assumes "re_match RE_MIN s = Some m"
  shows "\<exists>ds. all_digits ds \<and> (m = [(1, ds)] \<or> m = [(2, ds)])"
proof -
  let ?a = "Seq (Lit AT_LEAST_HEB) (Seq (Star Space) (Group 1 (Plus Digit)))"
  let ?b = "Seq (Group 2 (Plus Digit)) (Seq (Star Space) (Lit AT_LEAST_HEB))"
  have gl: "groupless (Plus Digit)" "groupless (Lit AT_LEAST_HEB)" "groupless (Star Space)"
    "groupless (Seq (Star Space) (Lit AT_LEAST_HEB))"
    by simp_all
  from re_match_SomeD [OF assms] obtain rest
    where "(rest, m) \<in> set (rmatch (Alt ?a ?b) (s, []))"
    unfolding RE_MIN_def by blast
  from rmatch_Alt_elim [OF this] show ?thesis
  proof
    assume "(rest, m) \<in> set (rmatch ?a (s, []))"
    then obtain s1 g1 where a: "(s1, g1) \<in> set (rmatch (Lit AT_LEAST_HEB) (s, []))"
      and b: "(rest, m) \<in> set (rmatch (Seq (Star Space) (Group 1 (Plus Digit))) (s1, g1))"
      by (rule rmatch_Seq_elim)
    from b obtain s2 g2 where c: "(s2, g2) \<in> set (rmatch (Star Space) (s1, g1))"
      and d: "(rest, m) \<in> set (rmatch (Group 1 (Plus Digit)) (s2, g2))"
      by (rule rmatch_Seq_elim)
    from rmatch_groupless [OF gl(2) a] rmatch_groupless [OF gl(3) c] have g2: "g2 = []"
      by simp
    from rmatch_Group [OF d gl(1)] g2
    have n: "(rest, []) \<in> set (rmatch (Plus Digit) (s2, []))"
      and m: "m = [(1, take (length s2 - length rest) s2)]"
      by simp_all
    from rmatch_Plus_Digit [OF n] m show ?thesis by auto
  next
    assume "(rest, m) \<in> set (rmatch ?b (s, []))"
    then obtain s1 g1 where a: "(s1, g1) \<in> set (rmatch (Group 2 (Plus Digit)) (s, []))"
      and b: "(rest, m) \<in> set (rmatch (Seq (Star Space) (Lit AT_LEAST_HEB)) (s1, g1))"
      by (rule rmatch_Seq_elim)
    from rmatch_Group [OF a gl(1)] have n: "(s1, []) \<in> set (rmatch (Plus Digit) (s, []))"
      and g1: "g1 = [(2, take (length s - length s1) s)]"
      by blast+
    from rmatch_groupless [OF gl(4) b] have "m = g1" .
    with rmatch_Plus_Digit [OF n] g1 show ?thesis by auto
  qed
qed

subsection \<open>Point cells and unknown categories\<close>

lemma match_points_range:
  assumes "re_match RE_RANGE s = Some m"
  shows "\<exists>x p. group m 1 = Some x \<and> float_of_str x = Some p \<and> match_points s = Inr (Some p)"
proof -
  from RE_RANGE_group [OF assms] obtain x where x: "decimal x" "m = [(1, x)]"
    by blast
  from float_decimal [OF x(1)] obtain p where p: "float_of_str x = Some p"
    by blast
  from x decimal_chars(1) [OF x(1)] p assms show ?thesis
    by (simp add: match_points_def group_def)
qed

lemma match_points_min:
  assumes "re_match RE_RANGE s = None" "re_match RE_MIN s = Some m"
  shows "\<exists>n p. (group m 1 = Some n \<or> group m 2 = Some n) \<and> float_of_str n = Some p
    \<and> match_points s = Inr (Some p)"
proof -
  from RE_MIN_group [OF assms(2)] obtain ds
    where ds: "all_digits ds" "m = [(1, ds)] \<or> m = [(2, ds)]"
    by blast
  from ds(1) have "decimal ds" by (simp add: decimal_def)
  from float_decimal [OF this] obtain p where p: "float_of_str ds = Some p"
    by blast
  from ds all_digits_set(1) [OF ds(1)] p assms show ?thesis
    by (auto simp: match_points_def group_def)
qed

lemma match_points_none:
  assumes "re_match RE_RANGE s = None" "re_match RE_MIN s = None"
  shows "match_points s = Inr None"
  using assms by (simp add: match_points_def)

lemma match_points_total: "\<exists>r. match_points s = Inr r"
proof (cases "re_match RE_RANGE s")
  case None
  then show ?thesis
    using match_points_min [OF None] match_points_none [OF None]
    by (cases "re_match RE_MIN s") auto
next
  case (Some m)
  from match_points_range [OF this] show ?thesis by blast
qed

lemma points_of_convertible:
  assumes "convertible c"
  shows "\<exists>r. points_of c = Inr r"
  using assms match_points_total
  by (cases c) (auto simp: convertible_def float_of_int_def split: option.splits)

lemma points_of_overflow:
  assumes "\<not> convertible c"
  shows "points_of c = Inl OverflowError" "\<not> no_value c"
  using assms
  by (cases c; simp add: convertible_def float_of_int_def FLOAT_INT_LIMIT_def)+

lemma points_of_returns:
  assumes "points_of c = Inr r"
  shows "convertible c"
  using assms points_of_overflow(1) [of c] by auto



lemmas category_defs = MUST_def MUST_IN_HUG_def MUST_PROGRAMMING_def MUST_SAFETY_LIBRARY_def
  CHOICE_FROM_LIST_def CHOICE_IN_HUG_def CORNER_STONES_def COMPLEMENTARY_def ADDITIONAL_HUG_def
  MINOR_def IN_THE_CLUSTER_HEB_def TOTAL_HEB_def TOTAL_POINTS_HEB_def TOTAL_POINTS_IN_HUG_HEB_def



lemma summary_point_columns: "point_columns_of summary_columns = Inr [1]"
  by (simp add: summary_columns_def category_defs asc_def upt_rec)

lemma unknown_label_track:
  "parse_track unknown_label_table 7 = Inr (empty_track\<lparr>points_must := Fin 5\<rparr>, [])"
  by (simp add: parse_track_def unknown_label_table_def summary_point_columns track_row_def
      row_cells_def add_points_def no_totals_def empty_track_def category_defs asc_def
      float_of_int_def FLOAT_INT_LIMIT_def)


subsection \<open>The order of the attempts to parse a point cell\<close>

lemma contains_trans:
  assumes "contains a b" "contains b c"
  shows "contains a c"
  using assms by (auto simp: contains_sublist intro: sublist_order.order_trans)

lemma add_points_corner_stones:
  assumes "contains CORNER_STONES category" "\<not> contains MUST category"
    "\<not> contains IN_THE_CLUSTER_HEB category"
  shows "add_points category p a = a\<lparr>corner_stones := fadd (corner_stones a) p\<rparr>"
proof -
  have k: "contains MUST MUST" "contains MUST MUST_IN_HUG"
    "\<not> contains CORNER_STONES MUST_PROGRAMMING" "\<not> contains CORNER_STONES MUST_SAFETY_LIBRARY"
    "\<not> contains CORNER_STONES CHOICE_FROM_LIST" "\<not> contains CORNER_STONES CHOICE_IN_HUG"
    by (simp_all add: category_defs)
  from assms(1,2) k(1-4) have a: "category \<notin> set [MUST, MUST_IN_HUG, MUST_PROGRAMMING, MUST_SAFETY_LIBRARY]"
    by auto
  from assms(1) k(5) have b: "\<not> contains category CHOICE_FROM_LIST"
    using contains_trans by blast
  from assms(1) k(6) have c: "category \<noteq> CHOICE_IN_HUG"
    by auto
  from a b c assms show ?thesis
    by (simp add: add_points_def)
qed

lemma range_3_4:
  "float_of_str (asc ''3-4'') = None" "re_match RE_RANGE (asc ''3-4'') = Some [(1, asc ''3'')]"
  "float_of_str (asc ''3'') = Some (Fin 3)" "points_of (CStr (asc ''3-4'')) = Inr (Some (Fin 3))"
  "asc ''3-4'' \<noteq> []"
  by (simp_all add: match_points_def group_def pattern_defs number_defs text_defs)

text \<open>
  Claim C5, as the code has it. A point cell that holds a string is first converted with
  \<open>float\<close>; if that fails, \<open>RE_RANGE\<close> is matched and the number before the dash is
  taken; if that fails, \<open>RE_MIN\<close> is matched and its number is taken; if nothing matches,
  a line is printed, the cell is skipped and the loop goes on. A row whose category
  contains the corner-stones label, and contains neither the total marker nor the label
  "mandatory" nor "within the cluster", adds 3 to \<open>corner_stones\<close> for the cell "3-4".
\<close>

theorem point_cell_parsing:
  "(float_of_str s = Some p \<longrightarrow> points_of (CStr s) = Inr (Some p))
   \<and> (float_of_str s = None \<longrightarrow> re_match RE_RANGE s = Some m \<longrightarrow>
        (\<exists>x q. group m 1 = Some x \<and> float_of_str x = Some q
           \<and> points_of (CStr s) = Inr (Some q)))
   \<and> (float_of_str s = None \<longrightarrow> re_match RE_RANGE s = None \<longrightarrow> re_match RE_MIN s = Some m \<longrightarrow>
        (\<exists>n q. (group m 1 = Some n \<or> group m 2 = Some n) \<and> float_of_str n = Some q
           \<and> points_of (CStr s) = Inr (Some q)))
   \<and> (float_of_str s = None \<longrightarrow> re_match RE_RANGE s = None \<longrightarrow> re_match RE_MIN s = None \<longrightarrow>
        s \<noteq> [] \<longrightarrow>
        add_row_points category (CStr s # raw_points) a =
          add_row_points category raw_points
            (a\<lparr>printed := printed a @ [could_not_parse category (CStr s)]\<rparr>))
   \<and> (contains CORNER_STONES category \<longrightarrow> \<not> contains TOTAL_HEB category \<longrightarrow>
        \<not> contains MUST category \<longrightarrow> \<not> contains IN_THE_CLUSTER_HEB category \<longrightarrow>
        track_row [1] [CStr category, CStr (asc ''3-4'')] a =
          Inr (a\<lparr>corner_stones := fadd (corner_stones a) (Fin 3)\<rparr>))"
proof (intro conjI impI)
  assume "float_of_str s = Some p"
  then show "points_of (CStr s) = Inr (Some p)" by simp
next
  assume f: "float_of_str s = None" and r: "re_match RE_RANGE s = Some m"
  from match_points_range [OF r] f
  show "\<exists>x q. group m 1 = Some x \<and> float_of_str x = Some q \<and> points_of (CStr s) = Inr (Some q)"
    by simp
next
  assume f: "float_of_str s = None" and r: "re_match RE_RANGE s = None"
    and n: "re_match RE_MIN s = Some m"
  from match_points_min [OF r n] f
  show "\<exists>n q. (group m 1 = Some n \<or> group m 2 = Some n) \<and> float_of_str n = Some q
      \<and> points_of (CStr s) = Inr (Some q)"
    by simp
next
  assume f: "float_of_str s = None" and r: "re_match RE_RANGE s = None"
    and n: "re_match RE_MIN s = None" and e: "s \<noteq> []"
  from match_points_none [OF r n] f e
  show "add_row_points category (CStr s # raw_points) a =
      add_row_points category raw_points
        (a\<lparr>printed := printed a @ [could_not_parse category (CStr s)]\<rparr>)"
    by simp
next
  assume c: "contains CORNER_STONES category" "\<not> contains TOTAL_HEB category"
    "\<not> contains MUST category" "\<not> contains IN_THE_CLUSTER_HEB category"
  show "track_row [1] [CStr category, CStr (asc ''3-4'')] a =
      Inr (a\<lparr>corner_stones := fadd (corner_stones a) (Fin 3)\<rparr>)"
    using c(2) range_3_4(5)
    by (simp add: track_row_def row_cells_def range_3_4(4)
        add_points_corner_stones [OF c(1,3,4)] del: points_of.simps)
qed

lemma research_seminar:
  "contains CORNER_STONES (CORNER_STONES @ asc '' research seminar'')"
  "\<not> contains TOTAL_HEB (CORNER_STONES @ asc '' research seminar'')"
  "\<not> contains MUST (CORNER_STONES @ asc '' research seminar'')"
  "\<not> contains IN_THE_CLUSTER_HEB (CORNER_STONES @ asc '' research seminar'')"
  by (simp_all add: category_defs asc_def)

theorem point_cell_parsing_witness:
  "points_of (CStr (asc ''3-4'')) = Inr (Some (Fin 3))
   \<and> track_row [1] [CStr (CORNER_STONES @ asc '' research seminar''), CStr (asc ''3-4'')] no_totals =
       Inr (no_totals\<lparr>corner_stones := Fin 3\<rparr>)"
proof -
  note main = point_cell_parsing [of "asc ''3-4''" _ "[(1, asc ''3'')]"
      "CORNER_STONES @ asc '' research seminar''" "[]" no_totals]
  from main have "\<exists>x q. group [(1, asc ''3'')] 1 = Some x \<and> float_of_str x = Some q
      \<and> points_of (CStr (asc ''3-4'')) = Inr (Some q)"
    using range_3_4(1,2) by blast
  then have a: "points_of (CStr (asc ''3-4'')) = Inr (Some (Fin 3))"
    by (auto simp: group_def range_3_4(3))
  from main research_seminar
  have "track_row [1] [CStr (CORNER_STONES @ asc '' research seminar''), CStr (asc ''3-4'')]
      no_totals = Inr (no_totals\<lparr>corner_stones := fadd (corner_stones no_totals) (Fin 3)\<rparr>)"
    by blast
  with a show ?thesis
    by (simp add: no_totals_def)
qed

theorem corner_stones_after_must:
  "contains CORNER_STONES (CORNER_STONES @ [sp] @ MUST)
   \<and> parse_track corner_must_table 7 = Inr (empty_track\<lparr>points_must := Fin 3\<rparr>, [])"
  by (simp add: parse_track_def corner_must_table_def summary_point_columns track_row_def
      row_cells_def add_points_def no_totals_def empty_track_def category_defs range_3_4(4,5)
      del: points_of.simps)

subsection \<open>Rows of the additional department\<close>

lemma add_points_additional_hug:
  "add_points ADDITIONAL_HUG p a = a\<lparr>additional_hug := fadd (additional_hug a) p\<rparr>"
  by (simp add: add_points_def category_defs)

lemma track_sums_add_points:
  assumes "track_sums a = track_sums b"
  shows "track_sums (add_points c p a) = track_sums (add_points c p b)"
  using assms by (simp add: add_points_def track_sums_def)

lemma track_sums_printed:
  "track_sums (a\<lparr>printed := x\<rparr>) = track_sums a"
  "track_sums (a\<lparr>additional_hug := y\<rparr>) = track_sums a"
  by (simp_all add: track_sums_def)

lemma add_row_points_sums:
  assumes "track_sums a = track_sums b"
  shows "map_sum id track_sums (add_row_points c raw_points a) =
     map_sum id track_sums (add_row_points c raw_points b)"
  using assms
proof (induction raw_points arbitrary: a b)
  case Nil
  then show ?case by simp
next
  case (Cons raw_point raw_points)
  show ?case
  proof (cases "no_value raw_point")
    case True
    with Cons.IH [OF Cons.prems] show ?thesis by simp
  next
    case False
    show ?thesis
    proof (cases "points_of raw_point")
      case (Inl e)
      with False show ?thesis by simp
    next
      case r: (Inr r)
      show ?thesis
      proof (cases r)
        case None
        with False r Cons.IH [of "a\<lparr>printed := printed a @ [could_not_parse c raw_point]\<rparr>"
            "b\<lparr>printed := printed b @ [could_not_parse c raw_point]\<rparr>"] Cons.prems
        show ?thesis by (simp add: track_sums_printed)
      next
        case (Some p)
        with False r Cons.IH [OF track_sums_add_points [OF Cons.prems, of c p]]
        show ?thesis by simp
      qed
    qed
  qed
qed

lemma add_row_points_additional_hug:
  assumes "add_row_points ADDITIONAL_HUG raw_points a = Inr a'"
  shows "track_sums a' = track_sums a"
  using assms
proof (induction raw_points arbitrary: a)
  case Nil
  then show ?case by simp
next
  case (Cons raw_point raw_points)
  show ?case
  proof (cases "no_value raw_point")
    case True
    with Cons.IH [of a] Cons.prems show ?thesis by simp
  next
    case False
    show ?thesis
    proof (cases "points_of raw_point")
      case (Inl e)
      with False Cons.prems show ?thesis by simp
    next
      case r: (Inr r)
      show ?thesis
      proof (cases r)
        case None
        with False r Cons.prems
          Cons.IH [of "a\<lparr>printed := printed a @ [could_not_parse ADDITIONAL_HUG raw_point]\<rparr>"]
        show ?thesis by (simp add: track_sums_printed)
      next
        case (Some p)
        with False r Cons.prems
          Cons.IH [of "a\<lparr>additional_hug := fadd (additional_hug a) p\<rparr>"]
        show ?thesis by (simp add: track_sums_printed add_points_additional_hug)
      qed
    qed
  qed
qed

lemma add_row_points_convertible:
  assumes "list_all convertible raw_points"
  shows "\<exists>a'. add_row_points c raw_points a = Inr a'"
  using assms
proof (induction raw_points arbitrary: a)
  case Nil
  show ?case by simp
next
  case (Cons raw_point raw_points)
  from Cons.prems have c: "convertible raw_point" and cs: "list_all convertible raw_points"
    by simp_all
  from points_of_convertible [OF c] obtain r where r: "points_of raw_point = Inr r"
    by blast
  from r Cons.IH [OF cs] show ?case
    by (cases r) simp_all
qed

lemma row_cells_total:
  assumes "\<forall>i \<in> set point_columns. i < length r"
  shows "\<exists>cs. row_cells r point_columns = Inr cs"
  using assms unfolding row_cells_def
  by (induction point_columns) auto

lemma row_cells_subset:
  assumes "row_cells r point_columns = Inr cs"
  shows "set cs \<subseteq> set r"
  using assms unfolding row_cells_def
  by (induction point_columns arbitrary: cs) (auto split: if_splits sum.splits)

lemma track_row_additional_hug:
  assumes "additional_hug_row r" "track_row point_columns r a = Inr a'"
  shows "track_sums a' = track_sums a"
proof -
  from assms(1) obtain cs where r: "r = CStr ADDITIONAL_HUG # cs"
    by (auto simp: additional_hug_row_def split: list.splits cell.splits)
  have t: "\<not> contains TOTAL_HEB ADDITIONAL_HUG"
    by (simp add: category_defs)
  from assms(2) t obtain raw_points
    where "add_row_points ADDITIONAL_HUG raw_points a = Inr a'"
    by (auto simp: track_row_def r split: sum.splits)
  from add_row_points_additional_hug [OF this] show ?thesis .
qed

lemma track_row_additional_hug_returns:
  assumes "additional_hug_row r" "\<forall>i \<in> set point_columns. i < length r"
    and "list_all convertible r"
  shows "\<exists>a'. track_row point_columns r a = Inr a'"
proof -
  from assms(1) obtain cs where r: "r = CStr ADDITIONAL_HUG # cs"
    by (auto simp: additional_hug_row_def split: list.splits cell.splits)
  have t: "\<not> contains TOTAL_HEB ADDITIONAL_HUG"
    by (simp add: category_defs)
  from row_cells_total [OF assms(2)] obtain raw_points
    where c: "row_cells r point_columns = Inr raw_points"
    by blast
  from row_cells_subset [OF c] assms(3) have "list_all convertible raw_points"
    by (auto simp: list_all_iff)
  from add_row_points_convertible [OF this, of ADDITIONAL_HUG a] c t show ?thesis
    by (simp add: track_row_def r)
qed

lemma track_row_sums:
  assumes "track_sums a = track_sums b"
  shows "map_sum id track_sums (track_row point_columns r a) =
     map_sum id track_sums (track_row point_columns r b)"
  using assms add_row_points_sums [OF assms]
  by (auto simp: track_row_def split: list.splits cell.splits sum.splits)

lemma track_rows_filter_returns:
  assumes "track_sums a = track_sums b" "track_rows point_columns rs a = Inr a'"
  shows "\<exists>b'. track_rows point_columns (filter (\<lambda>r. \<not> additional_hug_row r) rs) b = Inr b'
    \<and> track_sums a' = track_sums b'"
  using assms
proof (induction rs arbitrary: a b)
  case Nil
  then show ?case by simp
next
  case (Cons r rs)
  from Cons.prems(2) obtain a1 where a1: "track_row point_columns r a = Inr a1"
    "track_rows point_columns rs a1 = Inr a'"
    by (auto split: sum.splits)
  show ?case
  proof (cases "additional_hug_row r")
    case True
    from track_row_additional_hug [OF True a1(1)] Cons.prems(1)
    have "track_sums a1 = track_sums b" by simp
    from Cons.IH [OF this a1(2)] True show ?thesis by simp
  next
    case False
    from track_row_sums [OF Cons.prems(1), of point_columns r] a1(1)
    obtain b1 where b1: "track_row point_columns r b = Inr b1" "track_sums a1 = track_sums b1"
      by (cases "track_row point_columns r b") simp_all
    from Cons.IH [OF b1(2) a1(2)] b1(1) False show ?thesis by simp
  qed
qed

lemma track_rows_filter:
  assumes "track_sums a = track_sums b" "\<forall>r \<in> set rs. \<forall>i \<in> set point_columns. i < length r"
    and "list_all (list_all convertible) (filter additional_hug_row rs)"
  shows "map_sum id track_sums (track_rows point_columns rs a) =
     map_sum id track_sums
       (track_rows point_columns (filter (\<lambda>r. \<not> additional_hug_row r) rs) b)"
  using assms
proof (induction rs arbitrary: a b)
  case Nil
  then show ?case by simp
next
  case (Cons r rs)
  from Cons.prems(2) have w: "\<forall>i \<in> set point_columns. i < length r"
    and ws: "\<forall>r \<in> set rs. \<forall>i \<in> set point_columns. i < length r"
    by simp_all
  from Cons.prems(3) have cs: "list_all (list_all convertible) (filter additional_hug_row rs)"
    by (simp split: if_splits)
  show ?case
  proof (cases "additional_hug_row r")
    case True
    with Cons.prems(3) have "list_all convertible r" by simp
    from track_row_additional_hug_returns [OF True w this, of a] obtain a'
      where a': "track_row point_columns r a = Inr a'"
      by blast
    from track_row_additional_hug [OF True a'] Cons.prems(1)
    have "track_sums a' = track_sums b" by simp
    from Cons.IH [OF this ws cs] a' True show ?thesis by simp
  next
    case False
    note e = track_row_sums [OF Cons.prems(1), of point_columns r]
    show ?thesis
    proof (cases "track_row point_columns r a")
      case (Inl x)
      with e False show ?thesis
        by (cases "track_row point_columns r b") simp_all
    next
      case (Inr a')
      with e obtain b' where b': "track_row point_columns r b = Inr b'"
        "track_sums a' = track_sums b'"
        by (cases "track_row point_columns r b") simp_all
      with Cons.IH [OF b'(2) ws cs] Inr False show ?thesis by simp
    qed
  qed
qed

lemma point_columns_bound:
  assumes "point_columns_of l = Inr point_columns"
  shows "\<forall>i \<in> set point_columns. i < ncols l"
  using assms by (cases l) (auto split: if_splits)

lemma parse_track_without_hug_returns:
  assumes "parse_track df tid = Inr (t, out)"
  shows "\<exists>out'. parse_track (df\<lparr>rows := filter (\<lambda>r. \<not> additional_hug_row r) (rows df)\<rparr>) tid =
     Inr (t, out')"
proof -
  from assms obtain point_columns a
    where p: "point_columns_of (columns df) = Inr point_columns"
      and a: "track_rows point_columns (rows df) no_totals = Inr a"
    by (auto simp: parse_track_def split: sum.splits)
  from track_rows_filter_returns [OF refl a] obtain b
    where b: "track_rows point_columns (filter (\<lambda>r. \<not> additional_hug_row r) (rows df)) no_totals
        = Inr b" "track_sums a = track_sums b"
    by blast
  with assms p a show ?thesis
    by (simp add: parse_track_def track_sums_def)
qed

lemma parse_track_without_hug:
  assumes "rectangular df" "hug_rows_convertible df"
  shows "map_sum id fst (parse_track df tid) =
     map_sum id fst
       (parse_track (df\<lparr>rows := filter (\<lambda>r. \<not> additional_hug_row r) (rows df)\<rparr>) tid)"
proof (cases "point_columns_of (columns df)")
  case (Inl e)
  then show ?thesis by (simp add: parse_track_def)
next
  case (Inr point_columns)
  from point_columns_bound [OF Inr] assms(1)
  have w: "\<forall>r \<in> set (rows df). \<forall>i \<in> set point_columns. i < length r"
    by (simp add: rectangular_def)
  from assms(2) have c: "list_all (list_all convertible) (filter additional_hug_row (rows df))"
    by (simp add: hug_rows_convertible_def)
  let ?x = "track_rows point_columns (rows df) no_totals"
  let ?y = "track_rows point_columns (filter (\<lambda>r. \<not> additional_hug_row r) (rows df)) no_totals"
  from track_rows_filter [OF refl w c]
  have e: "map_sum id track_sums ?x = map_sum id track_sums ?y" .
  show ?thesis
  proof (cases ?x)
    case (Inl x)
    with e Inr show ?thesis
      by (cases ?y) (simp_all add: parse_track_def)
  next
    case a: (Inr a)
    with e obtain b where b: "?y = Inr b" "track_sums a = track_sums b"
      by (cases ?y) simp_all
    with a Inr show ?thesis
      by (simp add: parse_track_def track_sums_def)
  qed
qed

text \<open>
  An integer too large for \<open>float\<close> in a row of the additional department ends
  \<open>parse_track\<close> with OverflowError: such a run returns no track.
\<close>

lemma oversize_hug_overflow: "parse_track oversize_hug_table 7 = Inl OverflowError"
  by (simp add: parse_track_def oversize_hug_table_def summary_point_columns track_row_def
      row_cells_def add_points_def no_totals_def category_defs asc_def float_of_int_def
      FLOAT_INT_LIMIT_def)

text \<open>
  Claim C9. The category "additional department" is recognised, so its points do not fall
  into \<open>must\<close>: they are added to the local \<open>additional_hug\<close> only, which the track does
  not hold. Hence, of two track-summary tables with the same columns that differ only in
  rows of that category, in their number or in the point cells they carry, any two runs
  that return give the same track. A run fails to return where the other returns only on
  an integer too large for \<open>float\<close> in such a row, or on a row too short: when the tables
  are rectangular and hold no such integer in these rows, both runs give the same track,
  or both the same error.
\<close>

theorem additional_hug_rows_unobservable:
  assumes "columns df' = columns df"
    and "filter (\<lambda>r. \<not> additional_hug_row r) (rows df') =
      filter (\<lambda>r. \<not> additional_hug_row r) (rows df)"
  shows "add_points ADDITIONAL_HUG p a = a\<lparr>additional_hug := fadd (additional_hug a) p\<rparr>
    \<and> (parse_track df tid = Inr (t, out) \<longrightarrow> parse_track df' tid = Inr (t', out')
         \<longrightarrow> t' = t)
    \<and> (rectangular df \<longrightarrow> rectangular df' \<longrightarrow> hug_rows_convertible df
         \<longrightarrow> hug_rows_convertible df'
         \<longrightarrow> map_sum id fst (parse_track df' tid) = map_sum id fst (parse_track df tid))"
proof -
  have same: "df'\<lparr>rows := filter (\<lambda>r. \<not> additional_hug_row r) (rows df')\<rparr> =
      df\<lparr>rows := filter (\<lambda>r. \<not> additional_hug_row r) (rows df)\<rparr>"
    using assms by (cases df, cases df') simp
  have "t' = t"
    if r: "parse_track df tid = Inr (t, out)" and r': "parse_track df' tid = Inr (t', out')"
  proof -
    from parse_track_without_hug_returns [OF r] parse_track_without_hug_returns [OF r'] same
    show ?thesis by auto
  qed
  moreover have "map_sum id fst (parse_track df' tid) = map_sum id fst (parse_track df tid)"
    if "rectangular df" "rectangular df'" "hug_rows_convertible df" "hug_rows_convertible df'"
    using parse_track_without_hug [OF that(1,3), of tid]
      parse_track_without_hug [OF that(2,4), of tid] same
    by simp
  ultimately show ?thesis
    using add_points_additional_hug by blast
qed

lemma with_hug_table_rows:
  "columns with_hug_table = columns unknown_label_table"
  "filter (\<lambda>r. \<not> additional_hug_row r) (rows with_hug_table) =
     filter (\<lambda>r. \<not> additional_hug_row r) (rows unknown_label_table)"
  by (simp_all add: unknown_label_table_def with_hug_table_def additional_hug_row_def
      category_defs asc_def)

lemma with_hug_table_convertible:
  "rectangular unknown_label_table" "rectangular with_hug_table"
  "hug_rows_convertible unknown_label_table" "hug_rows_convertible with_hug_table"
  by (simp_all add: rectangular_def unknown_label_table_def with_hug_table_def
      summary_columns_def hug_rows_convertible_def convertible_def additional_hug_row_def
      category_defs asc_def)

theorem additional_hug_rows_unobservable_witness:
  "map_sum id fst (parse_track with_hug_table 7) = Inr (empty_track\<lparr>points_must := Fin 5\<rparr>)"
  using additional_hug_rows_unobservable [OF with_hug_table_rows, of _ _ 7]
  by (simp add: with_hug_table_convertible unknown_label_track)

end
